theory Spec2Isabelle
  imports Complex_Main "HOL-Library.AList" "HOL-Library.Multiset"
begin

section \<open>The water-source map: AR projector, heading tracker, fetch controller and cache\<close>

text \<open>
  The repository holds two variants of the same script: \<^verbatim>\<open>src/app.js\<close> (the optimised
  one, with request cancellation, a bounded cache and a zoom guard) and
  \<^verbatim>\<open>src/unnamed/part_000\<close> (the earlier one, without them). The AR code
  (\<^verbatim>\<open>deviceOrientationHandler\<close>, \<^verbatim>\<open>drawAR\<close>) is the same text in both.
  Definitions of the earlier variant carry the suffix \<open>_part000\<close>.

  JavaScript numbers are modelled as \<^typ>\<open>real\<close> (timestamps of \<^verbatim>\<open>Date.now()\<close> as
  \<^typ>\<open>int\<close> milliseconds): there is no NaN, no infinity and no rounding in the model.
  A value that may be \<^verbatim>\<open>null\<close> or \<^verbatim>\<open>undefined\<close> is an \<open>option\<close>.
\<close>

subsection \<open>Constants\<close>

definition HFOV_DEGREES :: real where
  "HFOV_DEGREES = 75"

definition MAX_AR_DISTANCE :: real where
  "MAX_AR_DISTANCE = 1000"

definition MIN_ZOOM_FOR_FETCH :: real where
  "MIN_ZOOM_FOR_FETCH = 10"

definition CACHE_EXPIRE_TIME :: int where
  "CACHE_EXPIRE_TIME = 10 * 60 * 1000"

definition CACHE_EXPIRE_TIME_part000 :: int where
  "CACHE_EXPIRE_TIME_part000 = 5 * 60 * 1000"

definition MAX_CACHE_ENTRIES :: nat where
  "MAX_CACHE_ENTRIES = 50"

subsection \<open>Data\<close>

text \<open>A Leaflet \<^verbatim>\<open>LatLng\<close>, and the bounds \<^verbatim>\<open>map.getBounds()\<close> returns, read through
  \<^verbatim>\<open>getSouth()\<close>, \<^verbatim>\<open>getWest()\<close>, \<^verbatim>\<open>getNorth()\<close>, \<^verbatim>\<open>getEast()\<close>.\<close>

record latlng =
  lat :: real
  lng :: real

record bounds =
  south :: real
  west :: real
  north :: real
  east :: real

text \<open>An element of an Overpass answer: a node carries \<^verbatim>\<open>lat\<close>/\<^verbatim>\<open>lon\<close>, a way or relation
  queried with \<^verbatim>\<open>out center\<close> carries \<^verbatim>\<open>center\<close>; \<^verbatim>\<open>tags\<close> is a string dictionary.\<close>

record center =
  c_lat :: "real option"
  c_lon :: "real option"

record element =
  el_id :: int
  el_lat :: "real option"
  el_lon :: "real option"
  el_center :: "center option"
  el_tags :: "(string \<times> string) list option"

text \<open>The object \<^verbatim>\<open>drawAR\<close> builds for a fountain it keeps.\<close>

record ar_fountain =
  f_name :: string
  f_dist :: real
  f_relativeAngle :: real
  f_id :: int
  f_lat :: real
  f_lon :: real

text \<open>A \<^verbatim>\<open>DeviceOrientationEvent\<close>: \<^verbatim>\<open>absolute\<close> may be missing, \<^verbatim>\<open>alpha\<close> and
  \<^verbatim>\<open>webkitCompassHeading\<close> may be null or missing (the handler treats both alike).\<close>

record orientation_event =
  absolute :: "bool option"
  alpha :: "real option"
  webkitCompassHeading :: "real option"

text \<open>What the script reads from Leaflet, whose code is not in the repository:
  \<^verbatim>\<open>latlng.distanceTo\<close>, the constructor \<^verbatim>\<open>L.latLngBounds([sw, ne])\<close> given its two
  corners as (lat, lng) pairs, and \<^verbatim>\<open>bounds.isValid()\<close>. They are parameters of the model.\<close>

record leaflet =
  distanceTo :: "latlng \<Rightarrow> latlng \<Rightarrow> real"
  latLngBounds :: "real \<times> real \<Rightarrow> real \<times> real \<Rightarrow> bounds"
  isValid :: "bounds \<Rightarrow> bool"

text \<open>The drawing surface \<^verbatim>\<open>arCanvas\<close>.\<close>

record canvas =
  cv_width :: real
  cv_height :: real

text \<open>What \<^verbatim>\<open>drawAR\<close> writes to \<^verbatim>\<open>arInfo.textContent\<close>: \<^verbatim>\<open>User location not available.\<close>,
  \<^verbatim>\<open>${Math.round(nearest.dist)}m to ${nearest.name}\<close>,
  \<^verbatim>\<open>${totalFountains} water sources found nearby (none in view)\<close>, or
  \<^verbatim>\<open>No water sources found in this area\<close>.\<close>

datatype ar_info =
    UserLocationNotAvailable
  | NearestInfo int string
  | NoneInView nat
  | NoWaterSources

text \<open>Errors by their \<^verbatim>\<open>name\<close>: the \<^verbatim>\<open>AbortError\<close> of an aborted request, the
  \<^verbatim>\<open>TypeError\<close> of a failed transport or of a property read on \<^verbatim>\<open>undefined\<close>, the
  \<^verbatim>\<open>SyntaxError\<close> of a body that is not JSON, and the \<^verbatim>\<open>Error\<close> the script throws
  itself with the response's status.\<close>

datatype js_error = AbortError | TypeError | SyntaxError | ErrorStatus nat

text \<open>What the two awaited promises of a fetch deliver: \<^verbatim>\<open>fetch(...)\<close> rejects, or resolves
  to a response with \<^verbatim>\<open>ok\<close> and \<^verbatim>\<open>status\<close>, whose \<^verbatim>\<open>json()\<close> rejects or resolves to
  data with the field \<^verbatim>\<open>elements\<close> (\<open>None\<close> when the field is missing).\<close>

datatype json_result = JsonRejected js_error | JsonData "element list option"

datatype fetch_result = Rejected js_error | Response bool nat json_result

text \<open>The two requests: \<^verbatim>\<open>fetchNearby(lat, lon, radius)\<close> and \<^verbatim>\<open>fetchFountains(bounds, key)\<close>.\<close>

datatype request = Nearby real real real | Bbox bounds string

record cache_entry =
  data :: "element list option"
  timestamp :: int

text \<open>The script's global variables, and what the runtime holds for it: \<open>fetchTimeout\<close> is
  the pending timer of \<^verbatim>\<open>setTimeout\<close> with its delay (\<open>None\<close>: no timer is pending);
  \<open>bboxCache\<close> is the \<^verbatim>\<open>Map\<close> in insertion order; \<open>fountains\<close> is \<^verbatim>\<open>window._fountains\<close>
  (read as \<^verbatim>\<open>window._fountains || []\<close> everywhere); \<open>notifications\<close> are the calls of
  \<^verbatim>\<open>showNotification(message, type)\<close> so far; \<open>fetches\<close> counts the calls of
  \<^verbatim>\<open>fetch\<close>, and the n-th call (with the \<^verbatim>\<open>AbortController\<close> made for it in app.js) is
  identified by n; \<open>awaiting\<close> are the calls suspended at \<^verbatim>\<open>await\<close>; \<open>aborted\<close> are the
  controllers whose \<^verbatim>\<open>abort()\<close> was called. The marker cluster layer and the popup HTML
  are not part of the state.\<close>

record app =
  userLocation :: "latlng option"
  currentFetchController :: "nat option"
  lastFetchBounds :: "bounds option"
  fetchTimeout :: "nat option"
  bboxCache :: "(string \<times> cache_entry) list"
  fountains :: "element list"
  notifications :: "(string \<times> string) list"
  loadingIndicator :: bool
  currentHeading :: real
  fetches :: nat
  awaiting :: "(nat \<times> request) list"
  aborted :: "nat list"

text \<open>The events of the page the model follows: the map's \<^verbatim>\<open>moveend\<close> (with \<^verbatim>\<open>map.getZoom()\<close>), the
  debounce timer firing (with \<^verbatim>\<open>map.getZoom()\<close>, \<^verbatim>\<open>map.getBounds()\<close> and \<^verbatim>\<open>Date.now()\<close>
  at that moment), \<^verbatim>\<open>locationfound\<close>, the awaited promises of the n-th fetch settling
  (with \<^verbatim>\<open>map.getZoom()\<close> and \<^verbatim>\<open>Date.now()\<close>), a click on the refresh button, and a
  device orientation event.\<close>

datatype event =
    Moveend real
  | Timeout real bounds int
  | Locationfound latlng
  | Settled nat fetch_result real int
  | RefreshClick
  | DeviceOrientation orientation_event

definition initial_app :: app where
  "initial_app = \<lparr>userLocation = None, currentFetchController = None, lastFetchBounds = None,
     fetchTimeout = None, bboxCache = [], fountains = [], notifications = [],
     loadingIndicator = False, currentHeading = 0, fetches = 0, awaiting = [], aborted = []\<rparr>"

subsection \<open>Angles\<close>

text \<open>The two loops of \<^verbatim>\<open>drawAR\<close>:
  \<^verbatim>\<open>while (relativeAngle <= -180) relativeAngle += 360;\<close> and
  \<^verbatim>\<open>while (relativeAngle > 180) relativeAngle -= 360;\<close>\<close>

function wrap_up :: "real \<Rightarrow> real" where
  "wrap_up a = (if a \<le> - 180 then wrap_up (a + 360) else a)"
  by pat_completeness auto
termination
proof (relation "measure (\<lambda>a. nat (\<lfloor>(- 180 - a) / 360\<rfloor> + 1))")
  show "wf (measure (\<lambda>a. nat (\<lfloor>(- 180 - a) / 360\<rfloor> + 1)))"
    by simp
next
  fix a :: real
  assume le: "a \<le> - 180"
  have shift: "(- 180 - (a + 360)) / 360 = (- 180 - a) / 360 - 1"
    by (simp add: field_simps)
  have "0 \<le> \<lfloor>(- 180 - a) / 360\<rfloor>"
    using le by simp
  then show "(a + 360, a) \<in> measure (\<lambda>a. nat (\<lfloor>(- 180 - a) / 360\<rfloor> + 1))"
    unfolding in_measure shift by simp
qed

function wrap_down :: "real \<Rightarrow> real" where
  "wrap_down a = (if a > 180 then wrap_down (a - 360) else a)"
  by pat_completeness auto
termination
proof (relation "measure (\<lambda>a. nat (\<lfloor>(a - 180) / 360\<rfloor> + 1))")
  show "wf (measure (\<lambda>a. nat (\<lfloor>(a - 180) / 360\<rfloor> + 1)))"
    by simp
next
  fix a :: real
  assume gt: "180 < a"
  have shift: "(a - 360 - 180) / 360 = (a - 180) / 360 - 1"
    by (simp add: field_simps)
  have "0 \<le> \<lfloor>(a - 180) / 360\<rfloor>"
    using gt by simp
  then show "(a - 360, a) \<in> measure (\<lambda>a. nat (\<lfloor>(a - 180) / 360\<rfloor> + 1))"
    unfolding in_measure shift by simp
qed

declare wrap_up.simps [simp del] wrap_down.simps [simp del]

definition normalizeAngle :: "real \<Rightarrow> real" where
  "normalizeAngle a = wrap_down (wrap_up a)"

text \<open>\<^verbatim>\<open>Math.atan2\<close> on the reals, \<^verbatim>\<open>L.Util.degToRad\<close> and \<^verbatim>\<open>L.Util.radToDeg\<close>, and the
  remainder \<^verbatim>\<open>%\<close>, which truncates the quotient towards zero.\<close>

definition atan2 :: "real \<Rightarrow> real \<Rightarrow> real" where
  "atan2 y x =
     (if 0 < x then arctan (y / x)
      else if x < 0 then (if 0 \<le> y then arctan (y / x) + pi else arctan (y / x) - pi)
      else if 0 < y then pi / 2
      else if y < 0 then - pi / 2
      else 0)"

definition degToRad :: "real \<Rightarrow> real" where
  "degToRad d = d * (pi / 180)"

definition radToDeg :: "real \<Rightarrow> real" where
  "radToDeg r = r * (180 / pi)"

definition js_rem :: "real \<Rightarrow> real \<Rightarrow> real" where
  "js_rem a b = a - b * real_of_int (if a / b < 0 then \<lceil>a / b\<rceil> else \<lfloor>a / b\<rfloor>)"

text \<open>A Leaflet to evaluate the model with, after Leaflet 1.x: \<^verbatim>\<open>distanceTo\<close> is the
  haversine distance of \<^verbatim>\<open>CRS.Earth\<close> on a sphere of radius 6371000 m,
  \<^verbatim>\<open>L.latLngBounds\<close> extends an empty box by each corner in turn (so it is the smallest box
  holding both), and such a box is valid. The general theorems hold for every Leaflet.\<close>

definition earth_distance :: "latlng \<Rightarrow> latlng \<Rightarrow> real" where
  "earth_distance latlng1 latlng2 =
     (let rad = pi / 180;
          lat1 = lat latlng1 * rad;
          lat2 = lat latlng2 * rad;
          sinDLat = sin ((lat latlng2 - lat latlng1) * rad / 2);
          sinDLon = sin ((lng latlng2 - lng latlng1) * rad / 2);
          a = sinDLat * sinDLat + cos lat1 * cos lat2 * sinDLon * sinDLon;
          c = 2 * atan2 (sqrt a) (sqrt (1 - a))
      in 6371000 * c)"

definition Leaflet :: leaflet where
  "Leaflet =
     \<lparr>distanceTo = earth_distance,
      latLngBounds = (\<lambda>sw ne.
        \<lparr>south = min (fst sw) (fst ne), west = min (snd sw) (snd ne),
         north = max (fst sw) (fst ne), east = max (snd sw) (snd ne)\<rparr>),
      isValid = (\<lambda>b. True)\<rparr>"

subsection \<open>Heading tracker\<close>

definition deviceOrientationHandler :: "app \<Rightarrow> orientation_event \<Rightarrow> app" where
  "deviceOrientationHandler s event =
     (let (newHeadingReported, newHeadingValue) =
        (if absolute event = Some True \<and> alpha event \<noteq> None
           then (True, the (alpha event))
         else if webkitCompassHeading event \<noteq> None
           then (True, the (webkitCompassHeading event))
         else if alpha event \<noteq> None
           then (True, the (alpha event))
         else (False, currentHeading s))
      in if newHeadingReported then s\<lparr>currentHeading := newHeadingValue\<rparr> else s)"

text \<open>The precedence in the specification's words: an absolute reading, else a compass
  heading, else a raw reading that is not absolute; else nothing.\<close>

datatype heading_source = AbsoluteCompass | MagneticCompass | RelativeUnreliable

definition resolve_heading :: "orientation_event \<Rightarrow> (real \<times> heading_source) option" where
  "resolve_heading event =
     (case (absolute event, alpha event, webkitCompassHeading event) of
        (Some True, Some a, _) \<Rightarrow> Some (a, AbsoluteCompass)
      | (_, _, Some w) \<Rightarrow> Some (w, MagneticCompass)
      | (_, Some a, None) \<Rightarrow> Some (a, RelativeUnreliable)
      | (_, None, None) \<Rightarrow> None)"

text \<open>The heading the specification's tracker holds after a sequence of events: that of
  the last event that resolves to a reading, 0 when there is none.\<close>

definition latest_heading :: "orientation_event list \<Rightarrow> real" where
  "latest_heading es =
     (case List.map_filter resolve_heading (rev es) of
        [] \<Rightarrow> 0
      | (h, _) # _ \<Rightarrow> h)"

subsection \<open>AR projector\<close>

text \<open>\<^verbatim>\<open>f.lat ?? f.center?.lat\<close> and \<^verbatim>\<open>f.tags?.name || 'Drinking water'\<close>.\<close>

definition element_lat :: "element \<Rightarrow> real option" where
  "element_lat f =
     (case el_lat f of Some v \<Rightarrow> Some v
      | None \<Rightarrow> (case el_center f of None \<Rightarrow> None | Some c \<Rightarrow> c_lat c))"

definition element_lon :: "element \<Rightarrow> real option" where
  "element_lon f =
     (case el_lon f of Some v \<Rightarrow> Some v
      | None \<Rightarrow> (case el_center f of None \<Rightarrow> None | Some c \<Rightarrow> c_lon c))"

definition element_name :: "element \<Rightarrow> string" where
  "element_name f =
     (case el_tags f of None \<Rightarrow> ''Drinking water''
      | Some tags \<Rightarrow>
          (case map_of tags ''name'' of None \<Rightarrow> ''Drinking water''
           | Some n \<Rightarrow> if n = [] then ''Drinking water'' else n))"

definition bearing :: "latlng \<Rightarrow> real \<Rightarrow> real \<Rightarrow> real" where
  "bearing user la lo =
     (let dLon = degToRad (lo - lng user);
          lat1 = degToRad (lat user);
          lat2 = degToRad la;
          y = sin dLon * cos lat2;
          x = cos lat1 * sin lat2 - sin lat1 * cos lat2 * cos dLon
      in js_rem (radToDeg (atan2 y x) + 360) 360)"

text \<open>The function mapped over the fountains: \<open>None\<close> is its \<^verbatim>\<open>null\<close>.\<close>

definition ar_fountain_of :: "leaflet \<Rightarrow> real \<Rightarrow> latlng \<Rightarrow> element \<Rightarrow> ar_fountain option" where
  "ar_fountain_of L heading user f =
     (case (element_lat f, element_lon f) of
        (Some la, Some lo) \<Rightarrow>
          (let fountainPos = \<lparr>lat = la, lng = lo\<rparr>;
               d = distanceTo L user fountainPos
           in if d > MAX_AR_DISTANCE then None
              else
                (let relativeAngle = normalizeAngle (bearing user la lo - heading)
                 in Some \<lparr>f_name = element_name f, f_dist = d,
                      f_relativeAngle = relativeAngle, f_id = el_id f, f_lat = la, f_lon = lo\<rparr>))
      | _ \<Rightarrow> None)"

text \<open>\<^verbatim>\<open>fountains.map(...).filter(f => f !== null && Math.abs(f.relativeAngle) <= HFOV_DEGREES / 2)
  .sort((a, b) => a.dist - b.dist).slice(0, 5)\<close>: \<open>List.map_filter\<close> maps and drops the nulls,
  \<open>sort_key\<close> is a stable sort, as \<^verbatim>\<open>Array.prototype.sort\<close> is.\<close>

definition arFountains :: "leaflet \<Rightarrow> real \<Rightarrow> latlng \<Rightarrow> element list \<Rightarrow> ar_fountain list" where
  "arFountains L heading user fs =
     take 5 (sort_key f_dist
       (filter (\<lambda>f. \<bar>f_relativeAngle f\<bar> \<le> HFOV_DEGREES / 2)
         (List.map_filter (ar_fountain_of L heading user) fs)))"

definition canvasCenterX :: "canvas \<Rightarrow> real" where
  "canvasCenterX cv = cv_width cv / 2"

definition canvasBottomY :: "canvas \<Rightarrow> real" where
  "canvasBottomY cv = cv_height cv - 80"

definition projectionMaxY :: "canvas \<Rightarrow> real" where
  "projectionMaxY cv = cv_height cv * (3 / 10)"

definition screenX :: "canvas \<Rightarrow> real \<Rightarrow> real" where
  "screenX cv relativeAngle =
     canvasCenterX cv + (relativeAngle / (HFOV_DEGREES / 2)) * (canvasCenterX cv * (9 / 10))"

definition yRatio :: "real \<Rightarrow> real" where
  "yRatio d = max 0 (min 1 (1 - d / MAX_AR_DISTANCE))"

definition screenY :: "canvas \<Rightarrow> real \<Rightarrow> real" where
  "screenY cv d = canvasBottomY cv - yRatio d * (canvasBottomY cv - projectionMaxY cv)"

definition iconRadius :: "real \<Rightarrow> real" where
  "iconRadius d = 10 + 8 * yRatio d"

text \<open>\<^verbatim>\<open>Math.round\<close> rounds half up.\<close>

definition math_round :: "real \<Rightarrow> int" where
  "math_round x = \<lfloor>x + 1 / 2\<rfloor>"

text \<open>\<^verbatim>\<open>drawAR(heading)\<close>: the circles it draws with \<^verbatim>\<open>ctx.arc(screenX, screenY, iconRadius, ...)\<close>,
  one for each kept fountain in order, and the text it leaves in \<^verbatim>\<open>arInfo\<close>.\<close>

definition drawAR :: "leaflet \<Rightarrow> canvas \<Rightarrow> app \<Rightarrow> real \<Rightarrow> (real \<times> real \<times> real) list \<times> ar_info" where
  "drawAR L cv s heading =
     (case userLocation s of
        None \<Rightarrow> ([], UserLocationNotAvailable)
      | Some user \<Rightarrow>
          (let kept = arFountains L heading user (fountains s);
               arcs = map (\<lambda>f. (screenX cv (f_relativeAngle f), screenY cv (f_dist f),
                        iconRadius (f_dist f))) kept;
               info =
                 (case kept of
                    nearest # _ \<Rightarrow> NearestInfo (math_round (f_dist nearest)) (f_name nearest)
                  | [] \<Rightarrow>
                      (let totalFountains = length (fountains s)
                       in if totalFountains > 0 then NoneInView totalFountains
                          else NoWaterSources))
           in (arcs, info)))"

subsection \<open>Cache\<close>

text \<open>\<^verbatim>\<open>Number.prototype.toFixed(f)\<close> for numbers below 10^21: the integer n nearest to
  \<open>x * 10^f\<close> (the larger one of two), written in decimal with f digits after the point.\<close>

function decimal :: "nat \<Rightarrow> string" where
  "decimal n =
     (if n < 10 then [''0123456789'' ! n]
      else decimal (n div 10) @ [''0123456789'' ! (n mod 10)])"
  by pat_completeness auto
termination
  by (relation "measure id") auto

declare decimal.simps [simp del]

definition toFixed :: "real \<Rightarrow> nat \<Rightarrow> string" where
  "toFixed x f =
     (let n = nat \<lfloor>\<bar>x\<bar> * 10 ^ f + 1 / 2\<rfloor>;
          m = decimal n;
          m = (if f = 0 then m
               else
                 (let k = length m;
                      m = (if k \<le> f then replicate (f + 1 - k) CHR ''0'' @ m else m);
                      k = length m
                  in take (k - f) m @ ''.'' @ drop (k - f) m))
      in (if x < 0 then ''-'' else []) @ m)"

text \<open>The cache key of the timer callback:
  \<^verbatim>\<open>[bounds.getSouth().toFixed(1), ..., bounds.getEast().toFixed(1)].join(',')\<close>
  (three digits in part_000).\<close>

definition bbox_key :: "nat \<Rightarrow> bounds \<Rightarrow> string" where
  "bbox_key f b =
     toFixed (south b) f @ '','' @ toFixed (west b) f @ '','' @
     toFixed (north b) f @ '','' @ toFixed (east b) f"

text \<open>The lookup of the timer callback:
  \<^verbatim>\<open>const cached = bboxCache.get(key);
  if (cached && Date.now() - cached.timestamp < CACHE_EXPIRE_TIME)\<close>.
  The result is the entry the callback goes on to render, \<open>None\<close> when the condition
  fails.\<close>

definition cache_get :: "(string \<times> cache_entry) list \<Rightarrow> string \<Rightarrow> int \<Rightarrow> cache_entry option" where
  "cache_get cache key now =
     (case map_of cache key of
        None \<Rightarrow> None
      | Some cached \<Rightarrow> if now - timestamp cached < CACHE_EXPIRE_TIME then Some cached else None)"

definition cache_get_part000 :: "(string \<times> cache_entry) list \<Rightarrow> string \<Rightarrow> int \<Rightarrow> cache_entry option" where
  "cache_get_part000 cache key now =
     (case map_of cache key of
        None \<Rightarrow> None
      | Some cached \<Rightarrow>
          if now - timestamp cached < CACHE_EXPIRE_TIME_part000 then Some cached else None)"

text \<open>The lookup in the specification's words: the entry if present and
  \<open>now - insertedAt < expiryDuration\<close>, otherwise none.\<close>

definition spec_get :: "int \<Rightarrow> (string \<rightharpoonup> cache_entry) \<Rightarrow> string \<Rightarrow> int \<Rightarrow> cache_entry option" where
  "spec_get expiryDuration store key now =
     (if key \<in> dom store \<and> now - timestamp (the (store key)) < expiryDuration
      then store key else None)"

text \<open>The cache management of \<^verbatim>\<open>fetchFountains\<close> in app.js:
  \<^verbatim>\<open>if (bboxCache.size >= MAX_CACHE_ENTRIES) {
    const entries = Array.from(bboxCache.entries());
    entries.sort((a, b) => a[1].timestamp - b[1].timestamp);
    const toRemove = entries.slice(0, Math.floor(MAX_CACHE_ENTRIES / 2));
    toRemove.forEach(([key]) => bboxCache.delete(key)); }\<close>\<close>

definition toRemove :: "(string \<times> cache_entry) list \<Rightarrow> (string \<times> cache_entry) list" where
  "toRemove cache =
     (let entries = sort_key (\<lambda>e. timestamp (snd e)) cache
      in take (MAX_CACHE_ENTRIES div 2) entries)"

definition cache_evict :: "(string \<times> cache_entry) list \<Rightarrow> (string \<times> cache_entry) list" where
  "cache_evict cache =
     (if length cache \<ge> MAX_CACHE_ENTRIES
      then fold (\<lambda>e m. AList.delete (fst e) m) (toRemove cache) cache
      else cache)"

text \<open>\<^verbatim>\<open>bboxCache.set(key, { data: data.elements, timestamp: Date.now() })\<close>, after the
  cache management in app.js, alone in part_000. \<^verbatim>\<open>Map.set\<close> replaces the value of a key
  it holds in place and appends a new key, as \<open>AList.update\<close> does.\<close>

definition cache_put ::
  "(string \<times> cache_entry) list \<Rightarrow> string \<Rightarrow> element list option \<Rightarrow> int \<Rightarrow> (string \<times> cache_entry) list" where
  "cache_put cache key elements now =
     AList.update key \<lparr>data = elements, timestamp = now\<rparr> (cache_evict cache)"

definition cache_put_part000 ::
  "(string \<times> cache_entry) list \<Rightarrow> string \<Rightarrow> element list option \<Rightarrow> int \<Rightarrow> (string \<times> cache_entry) list" where
  "cache_put_part000 cache key elements now =
     AList.update key \<lparr>data = elements, timestamp = now\<rparr> cache"

text \<open>A cache to evaluate with: 50 entries, with the keys 0 to 49 and the timestamps 0
  to 49.\<close>

definition full_cache :: "(string \<times> cache_entry) list" where
  "full_cache = map (\<lambda>i. (decimal i, \<lparr>data = Some [], timestamp = int i\<rparr>)) [0..<50]"

subsection \<open>Viewport fetch controller, app.js\<close>

definition getDelayForZoom :: "real \<Rightarrow> nat" where
  "getDelayForZoom zoom = (if zoom < 12 then 2000 else if zoom < 15 then 1000 else 500)"

definition getMaxMarkersForZoom :: "real \<Rightarrow> nat" where
  "getMaxMarkersForZoom zoom =
     (if zoom < 12 then 50 else if zoom < 15 then 200 else if zoom < 17 then 500 else 1000)"

definition bounds_area :: "bounds \<Rightarrow> real" where
  "bounds_area b = (north b - south b) * (east b - west b)"

definition boundsOverlapSignificantly :: "leaflet \<Rightarrow> bounds option \<Rightarrow> bounds \<Rightarrow> bool" where
  "boundsOverlapSignificantly L bounds1 bounds2 =
     (case bounds1 of
        None \<Rightarrow> False
      | Some b1 \<Rightarrow>
          (let area1 = bounds_area b1;
               area2 = bounds_area bounds2
           in if area2 > area1 * 4 then False
              else
                (let intersection = latLngBounds L
                       (max (south b1) (south bounds2), max (west b1) (west bounds2))
                       (min (north b1) (north bounds2), min (east b1) (east bounds2))
                 in if \<not> isValid L intersection then False
                    else
                      (let intersectionArea = bounds_area intersection
                       in intersectionArea > min area1 area2 * (7 / 10)))))"

definition showNotification :: "app \<Rightarrow> string \<Rightarrow> string \<Rightarrow> app" where
  "showNotification s message type = s\<lparr>notifications := notifications s @ [(message, type)]\<rparr>"

definition showLoadingIndicator :: "app \<Rightarrow> app" where
  "showLoadingIndicator s = s\<lparr>loadingIndicator := True\<rparr>"

definition hideLoadingIndicator :: "app \<Rightarrow> app" where
  "hideLoadingIndicator s = s\<lparr>loadingIndicator := False\<rparr>"

text \<open>\<^verbatim>\<open>renderMarkers(elements)\<close> of app.js, with \<^verbatim>\<open>map.getZoom()\<close>: \<^verbatim>\<open>elements.slice\<close>
  throws a TypeError on \<^verbatim>\<open>undefined\<close>, before anything is written. The indicator is hidden
  at once when nothing is left or one batch of 100 holds everything (later batches run in
  animation frames, which are not modelled).\<close>

definition renderMarkers :: "app \<Rightarrow> real \<Rightarrow> element list option \<Rightarrow> js_error + app" where
  "renderMarkers s zoom elements =
     (case elements of
        None \<Rightarrow> Inl TypeError
      | Some els \<Rightarrow>
          (let maxMarkers = getMaxMarkersForZoom zoom;
               filteredElements = take maxMarkers els;
               s = s\<lparr>fountains := filteredElements\<rparr>
           in if length filteredElements \<le> 100 then Inr (hideLoadingIndicator s) else Inr s))"

text \<open>The part of \<^verbatim>\<open>fetchNearby\<close> and \<^verbatim>\<open>fetchFountains\<close> that runs at the call, up to
  the first \<^verbatim>\<open>await\<close>: abort the controller the variable holds, make a new one, show the
  indicator, and issue the request with the new controller's signal.\<close>

definition abort_current :: "app \<Rightarrow> app" where
  "abort_current s =
     (case currentFetchController s of
        None \<Rightarrow> s
      | Some c \<Rightarrow> s\<lparr>aborted := c # aborted s\<rparr>)"

definition issue_fetch :: "app \<Rightarrow> request \<Rightarrow> app" where
  "issue_fetch s req = s\<lparr>fetches := Suc (fetches s), awaiting := awaiting s @ [(fetches s, req)]\<rparr>"

definition fetchNearby :: "app \<Rightarrow> real \<Rightarrow> real \<Rightarrow> real \<Rightarrow> app" where
  "fetchNearby s la lo radius =
     (let s = abort_current s;
          s = s\<lparr>currentFetchController := Some (fetches s)\<rparr>;
          s = showLoadingIndicator s
      in issue_fetch s (Nearby la lo radius))"

definition fetchFountains :: "app \<Rightarrow> bounds \<Rightarrow> string \<Rightarrow> app" where
  "fetchFountains s b key =
     (let s = abort_current s;
          s = s\<lparr>currentFetchController := Some (fetches s)\<rparr>;
          s = showLoadingIndicator s
      in issue_fetch s (Bbox b key))"

text \<open>The rest of the \<^verbatim>\<open>try\<close> block, run when the awaited promises have settled: the state
  it leaves and the error it throws, if any.\<close>

definition fetchNearby_try :: "app \<Rightarrow> real \<Rightarrow> fetch_result \<Rightarrow> app \<times> js_error option" where
  "fetchNearby_try s zoom result =
     (case result of
        Rejected err \<Rightarrow> (s, Some err)
      | Response ok status body \<Rightarrow>
          if \<not> ok then (s, Some (ErrorStatus status))
          else
            (case body of
               JsonRejected err \<Rightarrow> (s, Some err)
             | JsonData elements \<Rightarrow>
                 (case renderMarkers s zoom elements of
                    Inl err \<Rightarrow> (s, Some err)
                  | Inr s' \<Rightarrow> (s', None))))"

definition fetchFountains_try ::
  "app \<Rightarrow> real \<Rightarrow> string \<Rightarrow> fetch_result \<Rightarrow> int \<Rightarrow> app \<times> js_error option" where
  "fetchFountains_try s zoom key result now =
     (case result of
        Rejected err \<Rightarrow> (s, Some err)
      | Response ok status body \<Rightarrow>
          if \<not> ok then (s, Some (ErrorStatus status))
          else
            (case body of
               JsonRejected err \<Rightarrow> (s, Some err)
             | JsonData elements \<Rightarrow>
                 (let s = s\<lparr>bboxCache := cache_put (bboxCache s) key elements now\<rparr>
                  in case renderMarkers s zoom elements of
                       Inl err \<Rightarrow> (s, Some err)
                     | Inr s' \<Rightarrow> (s', None))))"

text \<open>\<^verbatim>\<open>catch (err) { if (err.name === 'AbortError') { ...; return; } ...; showNotification(...) }
  finally { hideLoadingIndicator(); currentFetchController = null; }\<close>\<close>

definition fetch_catch :: "string \<Rightarrow> app \<times> js_error option \<Rightarrow> app" where
  "fetch_catch message r =
     (case r of
        (s, None) \<Rightarrow> s
      | (s, Some err) \<Rightarrow> if err = AbortError then s else showNotification s message ''error'')"

definition fetch_finally :: "app \<Rightarrow> app" where
  "fetch_finally s = (hideLoadingIndicator s)\<lparr>currentFetchController := None\<rparr>"

definition fetchNearby_settled :: "app \<Rightarrow> real \<Rightarrow> fetch_result \<Rightarrow> app" where
  "fetchNearby_settled s zoom result =
     fetch_finally
       (fetch_catch ''Failed to load nearby water sources. Please try again.''
         (fetchNearby_try s zoom result))"

definition fetchFountains_settled :: "app \<Rightarrow> real \<Rightarrow> string \<Rightarrow> fetch_result \<Rightarrow> int \<Rightarrow> app" where
  "fetchFountains_settled s zoom key result now =
     fetch_finally
       (fetch_catch ''Failed to load water sources in this area. Please try again.''
         (fetchFountains_try s zoom key result now))"

text \<open>The \<^verbatim>\<open>moveend\<close> handler, and the callback it hands to \<^verbatim>\<open>setTimeout\<close>. A
  \<^verbatim>\<open>renderMarkers\<close> that throws in the callback ends it with nothing written.\<close>

definition moveend :: "app \<Rightarrow> real \<Rightarrow> app" where
  "moveend s currentZoom =
     (if currentZoom < MIN_ZOOM_FOR_FETCH then s\<lparr>fetchTimeout := None\<rparr>
      else
        (let s = s\<lparr>fetchTimeout := None\<rparr>;
             delay = getDelayForZoom currentZoom
         in s\<lparr>fetchTimeout := Some delay\<rparr>))"

definition moveend_timeout :: "leaflet \<Rightarrow> app \<Rightarrow> real \<Rightarrow> bounds \<Rightarrow> int \<Rightarrow> app" where
  "moveend_timeout L s zoom b now =
     (if boundsOverlapSignificantly L (lastFetchBounds s) b then s
      else
        (let key = bbox_key 1 b
         in case cache_get (bboxCache s) key now of
              Some cached \<Rightarrow>
                (case renderMarkers s zoom (data cached) of Inl err \<Rightarrow> s | Inr s' \<Rightarrow> s')
            | None \<Rightarrow>
                (let area = bounds_area b
                 in if area > 100 then s
                    else (fetchFountains s b key)\<lparr>lastFetchBounds := Some b\<rparr>)))"

text \<open>The handlers of \<^verbatim>\<open>locationfound\<close> and of the refresh button. What \<^verbatim>\<open>map.setView\<close>
  and \<^verbatim>\<open>map.locate\<close> cause (a \<^verbatim>\<open>moveend\<close>, a \<^verbatim>\<open>locationfound\<close>) arrives as an event of
  its own.\<close>

definition locationfound :: "app \<Rightarrow> latlng \<Rightarrow> app" where
  "locationfound s e =
     (let s = s\<lparr>userLocation := Some e\<rparr>
      in fetchNearby s (lat e) (lng e) 1000)"

definition refresh_click :: "app \<Rightarrow> app" where
  "refresh_click s = s\<lparr>bboxCache := []\<rparr>"

text \<open>One event of the page. The timer fires only while it is pending. The promises of
  a fetch settle only while its call is suspended; an aborted request rejects with an
  AbortError whatever the network has, and no other request does.\<close>

definition delivers_abort :: "fetch_result \<Rightarrow> bool" where
  "delivers_abort result =
     (case result of
        Rejected err \<Rightarrow> err = AbortError
      | Response ok status body \<Rightarrow>
          (case body of JsonRejected err \<Rightarrow> ok \<and> err = AbortError | JsonData _ \<Rightarrow> False))"

definition step :: "leaflet \<Rightarrow> app \<Rightarrow> event \<Rightarrow> app" where
  "step L s ev =
     (case ev of
        Moveend zoom \<Rightarrow> moveend s zoom
      | Timeout zoom b now \<Rightarrow>
          (case fetchTimeout s of
             None \<Rightarrow> s
           | Some _ \<Rightarrow> moveend_timeout L (s\<lparr>fetchTimeout := None\<rparr>) zoom b now)
      | Locationfound e \<Rightarrow> locationfound s e
      | Settled n result zoom now \<Rightarrow>
          (case map_of (awaiting s) n of
             None \<Rightarrow> s
           | Some req \<Rightarrow>
               if n \<notin> set (aborted s) \<and> delivers_abort result then s
               else
                 (let result = (if n \<in> set (aborted s) then Rejected AbortError else result);
                      s = s\<lparr>awaiting := AList.delete n (awaiting s)\<rparr>
                  in case req of
                       Nearby _ _ _ \<Rightarrow> fetchNearby_settled s zoom result
                     | Bbox _ key \<Rightarrow> fetchFountains_settled s zoom key result now))
      | RefreshClick \<Rightarrow> refresh_click s
      | DeviceOrientation e \<Rightarrow> deviceOrientationHandler s e)"

definition run :: "leaflet \<Rightarrow> app \<Rightarrow> event list \<Rightarrow> app" where
  "run L s evs = foldl (step L) s evs"

text \<open>The requests in flight: issued, neither settled nor aborted.\<close>

definition in_flight :: "app \<Rightarrow> (nat \<times> request) list" where
  "in_flight s = filter (\<lambda>r. fst r \<notin> set (aborted s)) (awaiting s)"

text \<open>Two invariants of every run: the cache is a \<^verbatim>\<open>Map\<close> (no key twice) within its
  limit, and every identifier in use belongs to a fetch already made.\<close>

definition cache_ok :: "app \<Rightarrow> bool" where
  "cache_ok s \<longleftrightarrow> distinct (map fst (bboxCache s)) \<and> length (bboxCache s) \<le> MAX_CACHE_ENTRIES"

definition ids_below_fetches :: "app \<Rightarrow> bool" where
  "ids_below_fetches s \<longleftrightarrow>
     list_all (\<lambda>r. fst r < fetches s) (awaiting s) \<and>
     list_all (\<lambda>n. n < fetches s) (aborted s) \<and>
     pred_option (\<lambda>c. c < fetches s) (currentFetchController s)"

subsection \<open>Viewport fetch controller, part_000\<close>

text \<open>The earlier variant has no \<^verbatim>\<open>currentFetchController\<close>, no \<^verbatim>\<open>lastFetchBounds\<close> and no
  loading indicator: the fields stay as they are.\<close>

definition renderMarkers_part000 :: "app \<Rightarrow> element list option \<Rightarrow> app" where
  "renderMarkers_part000 s elements =
     s\<lparr>fountains := (case elements of None \<Rightarrow> [] | Some els \<Rightarrow> els)\<rparr>"

definition fetchNearby_part000 :: "app \<Rightarrow> real \<Rightarrow> real \<Rightarrow> real \<Rightarrow> app" where
  "fetchNearby_part000 s la lo radius = issue_fetch s (Nearby la lo radius)"

definition fetchFountains_part000 :: "app \<Rightarrow> bounds \<Rightarrow> string \<Rightarrow> app" where
  "fetchFountains_part000 s b key = issue_fetch s (Bbox b key)"

definition fetchNearby_try_part000 :: "app \<Rightarrow> fetch_result \<Rightarrow> app \<times> js_error option" where
  "fetchNearby_try_part000 s result =
     (case result of
        Rejected err \<Rightarrow> (s, Some err)
      | Response ok status body \<Rightarrow>
          if \<not> ok then (s, Some (ErrorStatus status))
          else
            (case body of
               JsonRejected err \<Rightarrow> (s, Some err)
             | JsonData elements \<Rightarrow> (renderMarkers_part000 s elements, None)))"

definition fetchFountains_try_part000 ::
  "app \<Rightarrow> string \<Rightarrow> fetch_result \<Rightarrow> int \<Rightarrow> app \<times> js_error option" where
  "fetchFountains_try_part000 s key result now =
     (case result of
        Rejected err \<Rightarrow> (s, Some err)
      | Response ok status body \<Rightarrow>
          if \<not> ok then (s, Some (ErrorStatus status))
          else
            (case body of
               JsonRejected err \<Rightarrow> (s, Some err)
             | JsonData elements \<Rightarrow>
                 (let s = s\<lparr>bboxCache := cache_put_part000 (bboxCache s) key elements now\<rparr>
                  in (renderMarkers_part000 s elements, None))))"

text \<open>\<^verbatim>\<open>catch (err) { console.error(...); showNotification(...) }\<close>\<close>

definition fetch_catch_part000 :: "string \<Rightarrow> app \<times> js_error option \<Rightarrow> app" where
  "fetch_catch_part000 message r =
     (case r of
        (s, None) \<Rightarrow> s
      | (s, Some err) \<Rightarrow> showNotification s message ''error'')"

definition fetchNearby_settled_part000 :: "app \<Rightarrow> fetch_result \<Rightarrow> app" where
  "fetchNearby_settled_part000 s result =
     fetch_catch_part000 ''Failed to load nearby water sources. Please try again.''
       (fetchNearby_try_part000 s result)"

definition fetchFountains_settled_part000 :: "app \<Rightarrow> string \<Rightarrow> fetch_result \<Rightarrow> int \<Rightarrow> app" where
  "fetchFountains_settled_part000 s key result now =
     fetch_catch_part000 ''Failed to load water sources in this area. Please try again.''
       (fetchFountains_try_part000 s key result now)"

definition moveend_part000 :: "app \<Rightarrow> app" where
  "moveend_part000 s = (s\<lparr>fetchTimeout := None\<rparr>)\<lparr>fetchTimeout := Some 500\<rparr>"

definition moveend_timeout_part000 :: "app \<Rightarrow> bounds \<Rightarrow> int \<Rightarrow> app" where
  "moveend_timeout_part000 s b now =
     (let key = bbox_key 3 b
      in case cache_get_part000 (bboxCache s) key now of
           Some cached \<Rightarrow> renderMarkers_part000 s (data cached)
         | None \<Rightarrow> fetchFountains_part000 s b key)"

definition locationfound_part000 :: "app \<Rightarrow> latlng \<Rightarrow> app" where
  "locationfound_part000 s e =
     (let s = s\<lparr>userLocation := Some e\<rparr>
      in fetchNearby_part000 s (lat e) (lng e) 1000)"

text \<open>No request is ever aborted here: no signal is passed to \<^verbatim>\<open>fetch\<close>.\<close>

definition step_part000 :: "app \<Rightarrow> event \<Rightarrow> app" where
  "step_part000 s ev =
     (case ev of
        Moveend zoom \<Rightarrow> moveend_part000 s
      | Timeout zoom b now \<Rightarrow>
          (case fetchTimeout s of
             None \<Rightarrow> s
           | Some _ \<Rightarrow> moveend_timeout_part000 (s\<lparr>fetchTimeout := None\<rparr>) b now)
      | Locationfound e \<Rightarrow> locationfound_part000 s e
      | Settled n result zoom now \<Rightarrow>
          (case map_of (awaiting s) n of
             None \<Rightarrow> s
           | Some req \<Rightarrow>
               if delivers_abort result then s
               else
                 (let s = s\<lparr>awaiting := AList.delete n (awaiting s)\<rparr>
                  in case req of
                       Nearby _ _ _ \<Rightarrow> fetchNearby_settled_part000 s result
                     | Bbox _ key \<Rightarrow> fetchFountains_settled_part000 s key result now))
      | RefreshClick \<Rightarrow> refresh_click s
      | DeviceOrientation e \<Rightarrow> deviceOrientationHandler s e)"

definition run_part000 :: "app \<Rightarrow> event list \<Rightarrow> app" where
  "run_part000 s evs = foldl step_part000 s evs"

section \<open>Properties\<close>

subsection \<open>Angle normalisation\<close>

lemma wrap_up_gt: "- 180 < wrap_up a"
  by (induction a rule: wrap_up.induct) (subst wrap_up.simps, simp)

lemma wrap_up_id: "- 180 < a \<Longrightarrow> wrap_up a = a"
  by (subst wrap_up.simps) simp

lemma wrap_up_le: "a \<le> - 180 \<Longrightarrow> wrap_up a \<le> 180"
proof (induction a rule: wrap_up.induct)
  case (1 a)
  show ?case
  proof (cases "a + 360 \<le> - 180")
    case True
    then show ?thesis using 1 by (subst wrap_up.simps) simp
  next
    case False
    then have "wrap_up (a + 360) = a + 360" by (simp add: wrap_up_id)
    then show ?thesis using 1(2) by (subst wrap_up.simps) simp
  qed
qed

lemma wrap_up_shift: "\<exists>n::nat. wrap_up a = a + 360 * real n"
proof (induction a rule: wrap_up.induct)
  case (1 a)
  show ?case
  proof (cases "a \<le> - 180")
    case True
    then obtain n :: nat where "wrap_up (a + 360) = a + 360 + 360 * real n"
      using 1 by blast
    then have "wrap_up a = a + 360 * real (Suc n)"
      using True by (subst wrap_up.simps) simp
    then show ?thesis by blast
  next
    case False
    then have "wrap_up a = a + 360 * real (0::nat)" by (simp add: wrap_up_id)
    then show ?thesis by blast
  qed
qed

lemma wrap_down_le: "wrap_down a \<le> 180"
  by (induction a rule: wrap_down.induct) (subst wrap_down.simps, simp)

lemma wrap_down_id: "a \<le> 180 \<Longrightarrow> wrap_down a = a"
  by (subst wrap_down.simps) simp

lemma wrap_down_gt: "180 < a \<Longrightarrow> - 180 < wrap_down a"
proof (induction a rule: wrap_down.induct)
  case (1 a)
  show ?case
  proof (cases "180 < a - 360")
    case True
    then show ?thesis using 1 by (subst wrap_down.simps) simp
  next
    case False
    then have "wrap_down (a - 360) = a - 360" by (simp add: wrap_down_id)
    then show ?thesis using 1(2) by (subst wrap_down.simps) simp
  qed
qed

lemma wrap_down_shift: "\<exists>n::nat. wrap_down a = a - 360 * real n"
proof (induction a rule: wrap_down.induct)
  case (1 a)
  show ?case
  proof (cases "180 < a")
    case True
    then obtain n :: nat where "wrap_down (a - 360) = a - 360 - 360 * real n"
      using 1 by blast
    then have "wrap_down a = a - 360 * real (Suc n)"
      using True by (subst wrap_down.simps) simp
    then show ?thesis by blast
  next
    case False
    then have "wrap_down a = a - 360 * real (0::nat)" by (simp add: wrap_down_id)
    then show ?thesis by blast
  qed
qed

lemma normalizeAngle_range: "- 180 < normalizeAngle a \<and> normalizeAngle a \<le> 180"
proof (cases "wrap_up a \<le> 180")
  case True
  then show ?thesis
    using wrap_up_gt [of a] by (simp add: normalizeAngle_def wrap_down_id)
next
  case False
  then show ?thesis
    using wrap_down_gt [of "wrap_up a"] wrap_down_le [of "wrap_up a"]
    by (simp add: normalizeAngle_def)
qed

lemma normalizeAngle_shift: "\<exists>k::int. normalizeAngle a = a + 360 * real_of_int k"
proof -
  obtain n :: nat where n: "wrap_up a = a + 360 * real n"
    using wrap_up_shift by blast
  obtain m :: nat where m: "wrap_down (wrap_up a) = wrap_up a - 360 * real m"
    using wrap_down_shift by blast
  have "normalizeAngle a = a + 360 * real_of_int (int n - int m)"
  proof -
    have "normalizeAngle a = wrap_up a - 360 * real m"
      by (simp only: normalizeAngle_def m)
    then show ?thesis by (simp add: n)
  qed
  then show ?thesis by blast
qed

lemma half_open_unique:
  fixes x y :: real and k :: int
  assumes "- 180 < x" "x \<le> 180" "- 180 < y" "y \<le> 180" "x = y + 360 * real_of_int k"
  shows "x = y"
proof -
  have "- 1 < real_of_int k" "real_of_int k < 1"
    using assms by linarith+
  then have "k = 0" by linarith
  then show ?thesis using assms by simp
qed

lemma normalizeAngle_periodic: "normalizeAngle (x + 360 * real_of_int k) = normalizeAngle x"
proof -
  obtain i :: int where i: "normalizeAngle (x + 360 * real_of_int k) = x + 360 * real_of_int k + 360 * real_of_int i"
    using normalizeAngle_shift by blast
  obtain j :: int where j: "normalizeAngle x = x + 360 * real_of_int j"
    using normalizeAngle_shift by blast
  have "normalizeAngle (x + 360 * real_of_int k) = normalizeAngle x + 360 * real_of_int (k + i - j)"
    by (simp add: i j)
  then show ?thesis
    using half_open_unique normalizeAngle_range by blast
qed

text \<open>Claim C6. For every real angle, the two wrap-around loops of \<^verbatim>\<open>drawAR\<close> return a
  value in the half-open interval (-180, 180], and the result does not change when an
  integer multiple of 360 is added to the input. (The loops run on reals here: a
  JavaScript NaN, infinity or a double too large to change by 360 is outside the model.)\<close>

theorem normalizeAngle_range_periodic:
  "- 180 < normalizeAngle x \<and> normalizeAngle x \<le> 180 \<and>
   normalizeAngle (x + 360 * real_of_int k) = normalizeAngle x"
  using normalizeAngle_range [of x] normalizeAngle_periodic [of x k] by simp

subsection \<open>Heading tracker\<close>

lemma handler_heading:
  "currentHeading (deviceOrientationHandler s e) =
     (case resolve_heading e of Some (h, src) \<Rightarrow> h | None \<Rightarrow> currentHeading s)"
  by (cases "absolute e"; cases "alpha e"; cases "webkitCompassHeading e")
     (auto simp: deviceOrientationHandler_def resolve_heading_def split: bool.splits)

lemma handler_frame:
  "deviceOrientationHandler s e = s\<lparr>currentHeading := currentHeading (deviceOrientationHandler s e)\<rparr>"
  by (simp add: deviceOrientationHandler_def)

lemma latest_heading_snoc:
  "latest_heading (es @ [e]) =
     (case resolve_heading e of Some (h, src) \<Rightarrow> h | None \<Rightarrow> latest_heading es)"
  by (simp add: latest_heading_def List.map_filter_simps split: option.splits prod.splits)

lemma fold_heading:
  "currentHeading (foldl deviceOrientationHandler s es) =
     (case List.map_filter resolve_heading (rev es) of [] \<Rightarrow> currentHeading s | (h, src) # _ \<Rightarrow> h)"
proof (induction es rule: rev_induct)
  case Nil
  show ?case by (simp add: List.map_filter_simps)
next
  case (snoc e es)
  show ?case
    by (simp add: handler_heading snoc List.map_filter_simps split: option.splits prod.splits)
qed

text \<open>Claim C9. The heading is 0 before any event. An orientation event sets it by
  precedence: to \<open>alpha\<close> when \<open>absolute\<close> is true and \<open>alpha\<close> is there; else to
  \<open>webkitCompassHeading\<close> when that is there; else to \<open>alpha\<close> when it is there (a
  reading that is not absolute); an event with none of these changes nothing. This is the
  specification's precedence (\<open>resolve_heading\<close>), so after any sequence of events the
  heading is the reading of the last event that had one.\<close>

theorem heading_precedence:
  "currentHeading initial_app = 0 \<and>
   (absolute e = Some True \<and> alpha e = Some a \<longrightarrow>
      currentHeading (deviceOrientationHandler s e) = a) \<and>
   (\<not> (absolute e = Some True \<and> alpha e \<noteq> None) \<and> webkitCompassHeading e = Some w \<longrightarrow>
      currentHeading (deviceOrientationHandler s e) = w) \<and>
   (absolute e \<noteq> Some True \<and> webkitCompassHeading e = None \<and> alpha e = Some a \<longrightarrow>
      currentHeading (deviceOrientationHandler s e) = a) \<and>
   (webkitCompassHeading e = None \<and> alpha e = None \<longrightarrow> deviceOrientationHandler s e = s) \<and>
   currentHeading (deviceOrientationHandler s e) =
     (case resolve_heading e of Some (h, src) \<Rightarrow> h | None \<Rightarrow> currentHeading s) \<and>
   currentHeading (foldl deviceOrientationHandler initial_app es) = latest_heading es"
proof -
  have "currentHeading initial_app = 0"
    by (simp add: initial_app_def)
  moreover have "currentHeading (foldl deviceOrientationHandler initial_app es) = latest_heading es"
    by (simp add: fold_heading latest_heading_def initial_app_def split: list.splits)
  moreover have "absolute e = Some True \<and> alpha e = Some a \<longrightarrow>
      currentHeading (deviceOrientationHandler s e) = a"
    by (simp add: deviceOrientationHandler_def)
  moreover have "\<not> (absolute e = Some True \<and> alpha e \<noteq> None) \<and> webkitCompassHeading e = Some w \<longrightarrow>
      currentHeading (deviceOrientationHandler s e) = w"
    by (auto simp: deviceOrientationHandler_def)
  moreover have "absolute e \<noteq> Some True \<and> webkitCompassHeading e = None \<and> alpha e = Some a \<longrightarrow>
      currentHeading (deviceOrientationHandler s e) = a"
    by (simp add: deviceOrientationHandler_def)
  moreover have "webkitCompassHeading e = None \<and> alpha e = None \<longrightarrow> deviceOrientationHandler s e = s"
    by (simp add: deviceOrientationHandler_def)
  ultimately show ?thesis
    using handler_heading [of s e] by blast
qed

theorem heading_precedence_witness:
  "currentHeading (deviceOrientationHandler initial_app
     \<lparr>absolute = Some True, alpha = Some 90, webkitCompassHeading = Some 45\<rparr>) = 90 \<and>
   currentHeading (deviceOrientationHandler initial_app
     \<lparr>absolute = Some False, alpha = Some 90, webkitCompassHeading = Some 45\<rparr>) = 45 \<and>
   currentHeading (deviceOrientationHandler initial_app
     \<lparr>absolute = None, alpha = Some 90, webkitCompassHeading = None\<rparr>) = 90 \<and>
   deviceOrientationHandler initial_app
     \<lparr>absolute = Some True, alpha = None, webkitCompassHeading = None\<rparr> = initial_app"
  using heading_precedence [of "\<lparr>absolute = Some True, alpha = Some 90, webkitCompassHeading = Some 45\<rparr>"
      90 initial_app 45 "[]"]
    heading_precedence [of "\<lparr>absolute = Some False, alpha = Some 90, webkitCompassHeading = Some 45\<rparr>"
      90 initial_app 45 "[]"]
    heading_precedence [of "\<lparr>absolute = None, alpha = Some 90, webkitCompassHeading = None\<rparr>"
      90 initial_app 45 "[]"]
    heading_precedence [of "\<lparr>absolute = Some True, alpha = None, webkitCompassHeading = None\<rparr>"
      90 initial_app 45 "[]"]
  by simp

subsection \<open>AR projector\<close>

lemma ar_fountain_of_dist:
  "ar_fountain_of L h u f = Some m \<Longrightarrow> f_dist m \<le> MAX_AR_DISTANCE"
  by (auto simp: ar_fountain_of_def Let_def split: option.splits if_splits)

lemma arFountains_length: "length (arFountains L h u fs) \<le> 5"
  by (simp add: arFountains_def)

lemma arFountains_sorted: "sorted (map f_dist (arFountains L h u fs))"
  unfolding arFountains_def take_map [symmetric]
  by (intro sorted_wrt_take) (rule sorted_sort_key)

lemma arFountains_member:
  assumes "m \<in> set (arFountains L h u fs)"
  shows "\<bar>f_relativeAngle m\<bar> \<le> HFOV_DEGREES / 2 \<and> f_dist m \<le> MAX_AR_DISTANCE"
proof -
  from assms have "m \<in> set (filter (\<lambda>f. \<bar>f_relativeAngle f\<bar> \<le> HFOV_DEGREES / 2)
         (List.map_filter (ar_fountain_of L h u) fs))"
    unfolding arFountains_def using set_take_subset set_sort by fastforce
  then show ?thesis
    by (auto simp: List.map_filter_def dest: ar_fountain_of_dist)
qed

lemma drawAR_arcs_length: "length (fst (drawAR L cv s h)) \<le> 5"
  by (simp add: drawAR_def Let_def arFountains_length split: option.splits)

lemma atan2_sin_cos:
  assumes "- (pi / 2) < t" "t < pi / 2"
  shows "atan2 (sin t) (cos t) = t"
proof -
  have c: "0 < cos t" using assms by (simp add: cos_gt_zero_pi)
  have "arctan (sin t / cos t) = t"
    using arctan_tan [of t] assms by (simp add: tan_def)
  then show ?thesis using c by (simp add: atan2_def)
qed

lemma small_angle: "0 < pi / 360000" "pi / 360000 < pi / 2" "pi / 180000 < pi" "0 < pi / 180000"
  using pi_gt_zero by simp_all

lemma earth_distance_north:
  "earth_distance \<lparr>lat = 0, lng = 0\<rparr> \<lparr>lat = 1 / 1000, lng = 0\<rparr> = 6371000 * (pi / 180000)"
proof -
  let ?t = "pi / 360000"
  have s: "0 < sin ?t" using small_angle by (intro sin_gt_zero) auto
  have c: "0 < cos ?t" using small_angle by (intro cos_gt_zero_pi) auto
  have "1 - sin ?t * sin ?t = cos ?t * cos ?t"
    using sin_cos_squared_add [of ?t] by (simp add: power2_eq_square algebra_simps)
  then have "atan2 (sqrt (sin ?t * sin ?t)) (sqrt (1 - sin ?t * sin ?t)) = atan2 (sin ?t) (cos ?t)"
    using s c by simp
  also have "\<dots> = ?t" using small_angle by (intro atan2_sin_cos) auto
  finally show ?thesis
    by (simp add: earth_distance_def Let_def)
qed

lemma bearing_north: "bearing \<lparr>lat = 0, lng = 0\<rparr> (1 / 1000) 0 = 0"
proof -
  have "0 < sin (pi / 180000)" using small_angle by (intro sin_gt_zero) auto
  then show ?thesis
    by (simp add: bearing_def degToRad_def radToDeg_def atan2_def js_rem_def Let_def)
qed

lemma normalizeAngle_small: "- 180 < a \<Longrightarrow> a \<le> 180 \<Longrightarrow> normalizeAngle a = a"
  by (simp add: normalizeAngle_def wrap_up_id wrap_down_id)

lemma scenario_distance_le: "6371000 * (pi / 180000) \<le> MAX_AR_DISTANCE"
  using pi_less_4 by (simp add: MAX_AR_DISTANCE_def)

lemma scenario_north:
  "arFountains Leaflet 0 \<lparr>lat = 0, lng = 0\<rparr>
     [\<lparr>el_id = 7, el_lat = Some (1 / 1000), el_lon = Some 0, el_center = None, el_tags = None\<rparr>] =
     [\<lparr>f_name = ''Drinking water'', f_dist = 6371000 * (pi / 180000), f_relativeAngle = 0,
       f_id = 7, f_lat = 1 / 1000, f_lon = 0\<rparr>]"
  using scenario_distance_le
  by (simp add: arFountains_def List.map_filter_simps ar_fountain_of_def element_lat_def
      element_lon_def element_name_def Leaflet_def earth_distance_north bearing_north
      normalizeAngle_small HFOV_DEGREES_def)

lemma normalizeAngle_m180: "normalizeAngle (- 180) = 180"
  by (simp add: normalizeAngle_def wrap_up.simps wrap_down.simps)

lemma scenario_south:
  "arFountains Leaflet 180 \<lparr>lat = 0, lng = 0\<rparr>
     [\<lparr>el_id = 7, el_lat = Some (1 / 1000), el_lon = Some 0, el_center = None, el_tags = None\<rparr>] = []"
  using scenario_distance_le
  by (simp add: arFountains_def List.map_filter_simps ar_fountain_of_def element_lat_def
      element_lon_def element_name_def Leaflet_def earth_distance_north bearing_north
      normalizeAngle_m180 HFOV_DEGREES_def)

lemma ar_config_values: "HFOV_DEGREES / 2 = 37.5 \<and> MAX_AR_DISTANCE = 1000"
  by (simp add: HFOV_DEGREES_def MAX_AR_DISTANCE_def)

text \<open>Claim C1. For every heading, user position, list of elements and Leaflet, the
  projector keeps at most 5 fountains, in order of non-decreasing distance, each with
  \<open>|relativeAngle| \<le> HFOV_DEGREES / 2\<close> (37.5 degrees) and distance at most
  \<open>MAX_AR_DISTANCE\<close> (1000 m); \<^verbatim>\<open>drawAR\<close> draws at most 5 circles.\<close>

theorem ar_projector_output:
  "length (arFountains L heading user fs) \<le> 5 \<and>
   sorted (map f_dist (arFountains L heading user fs)) \<and>
   (\<forall>m \<in> set (arFountains L heading user fs).
      \<bar>f_relativeAngle m\<bar> \<le> HFOV_DEGREES / 2 \<and> f_dist m \<le> MAX_AR_DISTANCE) \<and>
   length (fst (drawAR L cv s heading)) \<le> 5"
  using arFountains_length arFountains_sorted arFountains_member drawAR_arcs_length
  by simp

text \<open>The specification's scenario: the user at (0, 0) heading 0, one fountain due north
  at (0.001, 0). It is kept, at relative angle 0 and about 111 m.\<close>

theorem ar_projector_output_witness:
  "arFountains Leaflet 0 \<lparr>lat = 0, lng = 0\<rparr>
     [\<lparr>el_id = 7, el_lat = Some (1 / 1000), el_lon = Some 0, el_center = None, el_tags = None\<rparr>] =
     [\<lparr>f_name = ''Drinking water'', f_dist = 6371000 * (pi / 180000), f_relativeAngle = 0,
       f_id = 7, f_lat = 1 / 1000, f_lon = 0\<rparr>] \<and>
   \<bar>0 :: real\<bar> \<le> HFOV_DEGREES / 2 \<and> 6371000 * (pi / 180000) \<le> MAX_AR_DISTANCE"
proof -
  let ?fs = "[\<lparr>el_id = 7, el_lat = Some (1 / 1000), el_lon = Some 0, el_center = None,
    el_tags = None\<rparr>]"
  let ?m = "\<lparr>f_name = ''Drinking water'', f_dist = 6371000 * (pi / 180000), f_relativeAngle = 0,
    f_id = 7, f_lat = 1 / 1000, f_lon = 0\<rparr>"
  have kept: "arFountains Leaflet 0 \<lparr>lat = 0, lng = 0\<rparr> ?fs = [?m]"
    by (rule scenario_north)
  have "\<forall>m \<in> set (arFountains Leaflet 0 \<lparr>lat = 0, lng = 0\<rparr> ?fs).
      \<bar>f_relativeAngle m\<bar> \<le> HFOV_DEGREES / 2 \<and> f_dist m \<le> MAX_AR_DISTANCE"
    using ar_projector_output [of Leaflet 0 "\<lparr>lat = 0, lng = 0\<rparr>" ?fs] by blast
  then have "\<bar>f_relativeAngle ?m\<bar> \<le> HFOV_DEGREES / 2 \<and> f_dist ?m \<le> MAX_AR_DISTANCE"
    unfolding kept by simp
  then show ?thesis
    using kept by simp
qed

subsection \<open>Projection to the screen\<close>

lemma yRatio_antimono: "d1 \<le> d2 \<Longrightarrow> yRatio d2 \<le> yRatio d1"
  by (auto simp: yRatio_def MAX_AR_DISTANCE_def min_def max_def)

lemma yRatio_strict: "0 \<le> d1 \<Longrightarrow> d1 < d2 \<Longrightarrow> d2 \<le> MAX_AR_DISTANCE \<Longrightarrow> yRatio d2 < yRatio d1"
  by (auto simp: yRatio_def MAX_AR_DISTANCE_def min_def max_def)

lemma yRatio_range: "0 \<le> yRatio d \<and> yRatio d \<le> 1"
  by (auto simp: yRatio_def)

lemma screenY_mono:
  assumes "projectionMaxY cv \<le> canvasBottomY cv" "d1 \<le> d2"
  shows "screenY cv d1 \<le> screenY cv d2"
proof -
  have "yRatio d2 * (canvasBottomY cv - projectionMaxY cv) \<le> yRatio d1 * (canvasBottomY cv - projectionMaxY cv)"
    using assms yRatio_antimono [OF assms(2)] by (intro mult_right_mono) auto
  then show ?thesis by (simp add: screenY_def)
qed

lemma screenY_strict:
  assumes "projectionMaxY cv < canvasBottomY cv" "0 \<le> d1" "d1 < d2" "d2 \<le> MAX_AR_DISTANCE"
  shows "screenY cv d1 < screenY cv d2"
proof -
  have "yRatio d2 * (canvasBottomY cv - projectionMaxY cv) < yRatio d1 * (canvasBottomY cv - projectionMaxY cv)"
    using assms yRatio_strict [OF assms(2,3,4)] by (intro mult_strict_right_mono) auto
  then show ?thesis by (simp add: screenY_def)
qed

text \<open>Claim C2, as the code has it. The canvas y coordinate grows downwards. On a canvas
  where the line \<open>projectionMaxY\<close> (0.3 of the height) is not below the line
  \<open>canvasBottomY\<close> (height - 80), \<open>screenY\<close> is non-decreasing and the icon radius
  non-increasing in the distance; between two distances in [0, MAX_AR_DISTANCE] the
  strictly closer point has the strictly smaller \<open>screenY\<close> (it is drawn higher) and the
  strictly larger icon; a point at \<open>MAX_AR_DISTANCE\<close> is drawn on the line
  \<open>canvasBottomY\<close> with the smallest radius, 10, and a point at distance 0 on the
  line \<open>projectionMaxY\<close> with the largest.\<close>

theorem projection_monotone:
  assumes "projectionMaxY cv \<le> canvasBottomY cv" and "d1 \<le> d2"
  shows "screenY cv d1 \<le> screenY cv d2 \<and> iconRadius d2 \<le> iconRadius d1 \<and>
    (projectionMaxY cv < canvasBottomY cv \<and> 0 \<le> d1 \<and> d1 < d2 \<and> d2 \<le> MAX_AR_DISTANCE \<longrightarrow>
       screenY cv d1 < screenY cv d2 \<and> iconRadius d2 < iconRadius d1) \<and>
    screenY cv MAX_AR_DISTANCE = canvasBottomY cv \<and> screenY cv 0 = projectionMaxY cv \<and>
    iconRadius MAX_AR_DISTANCE = 10 \<and> 10 \<le> iconRadius d1 \<and> iconRadius d1 \<le> iconRadius 0"
proof -
  have a: "yRatio MAX_AR_DISTANCE = 0" "yRatio 0 = 1"
    by (simp_all add: yRatio_def MAX_AR_DISTANCE_def)
  show ?thesis
    using screenY_mono [OF assms] yRatio_antimono [OF assms(2)] screenY_strict [of cv d1 d2]
      yRatio_strict [of d1 d2] yRatio_range [of d1]
    by (simp add: iconRadius_def a) (simp add: screenY_def a)
qed

theorem projection_monotone_witness:
  "projectionMaxY \<lparr>cv_width = 400, cv_height = 1000\<rparr> < canvasBottomY \<lparr>cv_width = 400, cv_height = 1000\<rparr> \<and>
   screenY \<lparr>cv_width = 400, cv_height = 1000\<rparr> 100 < screenY \<lparr>cv_width = 400, cv_height = 1000\<rparr> 900 \<and>
   iconRadius 900 < iconRadius 100 \<and>
   screenY \<lparr>cv_width = 400, cv_height = 1000\<rparr> 100 = 362 \<and>
   screenY \<lparr>cv_width = 400, cv_height = 1000\<rparr> 900 = 858"
  using projection_monotone [of "\<lparr>cv_width = 400, cv_height = 1000\<rparr>" 100 900]
  by (simp add: screenY_def yRatio_def canvasBottomY_def projectionMaxY_def MAX_AR_DISTANCE_def)

text \<open>Claim C2 as stated fails: on a canvas 1000 high the point at 100 m is not drawn
  below the point at 900 m, and a point at \<open>MAX_AR_DISTANCE\<close> is not drawn on the upper
  line \<open>projectionMaxY\<close>.\<close>

theorem closer_is_drawn_higher:
  "\<not> screenY \<lparr>cv_width = 400, cv_height = 1000\<rparr> 900 < screenY \<lparr>cv_width = 400, cv_height = 1000\<rparr> 100 \<and>
   screenY \<lparr>cv_width = 400, cv_height = 1000\<rparr> MAX_AR_DISTANCE \<noteq> projectionMaxY \<lparr>cv_width = 400, cv_height = 1000\<rparr>"
  by (simp add: screenY_def yRatio_def canvasBottomY_def projectionMaxY_def MAX_AR_DISTANCE_def)

subsection \<open>Cache\<close>

lemma fold_delete_filter:
  "fold (\<lambda>e m. AList.delete (fst e) m) T c = filter (\<lambda>p. fst p \<notin> fst ` set T) c"
proof (induction T arbitrary: c)
  case Nil
  show ?case by simp
next
  case (Cons e T)
  have "AList.delete (fst e) c = filter (\<lambda>p. fst p \<noteq> fst e) c"
    by (induction c) auto
  then show ?case
    by (simp add: Cons)
qed

lemma toRemove_props:
  "set (toRemove c) \<subseteq> set c"
  "length (toRemove c) = min (MAX_CACHE_ENTRIES div 2) (length c)"
  "distinct c \<Longrightarrow> distinct (toRemove c)"
  using set_take_subset [of "MAX_CACHE_ENTRIES div 2" "sort_key (\<lambda>e. timestamp (snd e)) c"]
  by (auto simp: toRemove_def Let_def)

lemma key_in_toRemove:
  assumes "distinct (map fst c)" "p \<in> set c"
  shows "fst p \<in> fst ` set (toRemove c) \<longleftrightarrow> p \<in> set (toRemove c)"
proof
  assume "fst p \<in> fst ` set (toRemove c)"
  then obtain q where q: "q \<in> set (toRemove c)" "fst q = fst p" by auto
  then have "q \<in> set c" using toRemove_props(1) by auto
  then have "q = p" using assms q(2) by (meson eq_key_imp_eq_value prod_eqI distinct_map inj_onD)
  then show "p \<in> set (toRemove c)" using q by simp
qed auto

lemma cache_evict_full:
  assumes "distinct (map fst c)" "MAX_CACHE_ENTRIES \<le> length c"
  shows "cache_evict c = filter (\<lambda>p. p \<notin> set (toRemove c)) c"
proof -
  have "filter (\<lambda>p. fst p \<notin> fst ` set (toRemove c)) c = filter (\<lambda>p. p \<notin> set (toRemove c)) c"
  proof (rule filter_cong [OF refl])
    fix p assume "p \<in> set c"
    then show "(fst p \<notin> fst ` set (toRemove c)) = (p \<notin> set (toRemove c))"
      using key_in_toRemove [OF assms(1)] by simp
  qed
  then show ?thesis
    using assms(2) by (simp add: cache_evict_def fold_delete_filter)
qed

lemma cache_evict_small: "length c < MAX_CACHE_ENTRIES \<Longrightarrow> cache_evict c = c"
  by (simp add: cache_evict_def)

lemma cache_evict_subset: "set (cache_evict c) \<subseteq> set c"
  by (auto simp: cache_evict_def fold_delete_filter)

lemma cache_evict_distinct: "distinct (map fst c) \<Longrightarrow> distinct (map fst (cache_evict c))"
  by (simp add: cache_evict_def fold_delete_filter distinct_map_filter)

lemma cache_evict_length:
  assumes "distinct (map fst c)" "MAX_CACHE_ENTRIES \<le> length c"
  shows "length (cache_evict c) = length c - MAX_CACHE_ENTRIES div 2"
proof -
  have dc: "distinct c" using assms(1) by (simp add: distinct_map)
  let ?T = "toRemove c"
  have "length (cache_evict c) = card ({p. p \<notin> set ?T} \<inter> set c)"
    using dc by (simp add: cache_evict_full [OF assms] distinct_length_filter)
  also have "{p. p \<notin> set ?T} \<inter> set c = set c - set ?T" by auto
  also have "card (set c - set ?T) = card (set c) - card (set ?T)"
    using toRemove_props(1) [of c] by (intro card_Diff_subset) auto
  also have "\<dots> = length c - length ?T"
    using dc toRemove_props(3) [OF dc] by (simp add: distinct_card)
  also have "length ?T = MAX_CACHE_ENTRIES div 2"
    using assms(2) by (simp add: toRemove_props(2) MAX_CACHE_ENTRIES_def)
  finally show ?thesis .
qed

lemma cache_evict_oldest:
  assumes "distinct (map fst c)" "MAX_CACHE_ENTRIES \<le> length c"
    and r: "r \<in> set c - set (cache_evict c)" and e: "e \<in> set (cache_evict c)"
  shows "timestamp (snd r) \<le> timestamp (snd e)"
proof -
  let ?S = "sort_key (\<lambda>e. timestamp (snd e)) c"
  let ?n = "MAX_CACHE_ENTRIES div 2"
  have T: "toRemove c = take ?n ?S" by (simp add: toRemove_def)
  have "r \<in> set (take ?n ?S)"
    using r by (auto simp: cache_evict_full [OF assms(1,2)] T)
  moreover have "e \<in> set (drop ?n ?S)"
  proof -
    have "e \<in> set ?S" "e \<notin> set (take ?n ?S)"
      using e by (auto simp: cache_evict_full [OF assms(1,2)] T)
    then show ?thesis
      by (metis Un_iff append_take_drop_id set_append)
  qed
  moreover have "sorted (map (\<lambda>e. timestamp (snd e)) (take ?n ?S) @
      map (\<lambda>e. timestamp (snd e)) (drop ?n ?S))"
    using sorted_sort_key [of "\<lambda>e. timestamp (snd e)" c]
    by (metis append_take_drop_id map_append)
  ultimately show ?thesis
    unfolding sorted_append by auto
qed

lemma length_update_le: "length (AList.update k v al) \<le> Suc (length al)"
  by (induction al) auto

lemma cache_put_length:
  assumes "distinct (map fst c)" "length c \<le> MAX_CACHE_ENTRIES"
  shows "length (cache_put c k d now) \<le> MAX_CACHE_ENTRIES"
proof (cases "length c < MAX_CACHE_ENTRIES")
  case True
  then show ?thesis
    using length_update_le [of k "\<lparr>data = d, timestamp = now\<rparr>" c]
    by (simp add: cache_put_def cache_evict_small)
next
  case False
  then have "length (cache_evict c) = length c - MAX_CACHE_ENTRIES div 2"
    using assms by (intro cache_evict_length) auto
  then show ?thesis
    using assms(2) length_update_le [of k "\<lparr>data = d, timestamp = now\<rparr>" "cache_evict c"]
    by (simp add: cache_put_def MAX_CACHE_ENTRIES_def)
qed

lemma cache_put_distinct:
  "distinct (map fst c) \<Longrightarrow> distinct (map fst (cache_put c k d now))"
  by (simp add: cache_put_def distinct_update cache_evict_distinct)

lemma cache_put_lookup:
  "map_of (cache_put c k d now) k = Some \<lparr>data = d, timestamp = now\<rparr>"
  by (simp add: cache_put_def update_conv')

lemma cache_get_spec: "cache_get c key now = spec_get CACHE_EXPIRE_TIME (map_of c) key now"
  by (auto simp: cache_get_def spec_get_def dom_def split: option.splits)

lemma cache_get_spec_part000:
  "cache_get_part000 c key now = spec_get CACHE_EXPIRE_TIME_part000 (map_of c) key now"
  by (auto simp: cache_get_part000_def spec_get_def dom_def split: option.splits)

lemma cache_get_after_put:
  "cache_get (cache_put c key d t0) key now =
     (if now - t0 < CACHE_EXPIRE_TIME then Some \<lparr>data = d, timestamp = t0\<rparr> else None)"
  by (simp add: cache_get_def cache_put_lookup)

text \<open>Claim C5. The lookup of the timer callback is the specification's \<open>get\<close>: the
  entry if the key is present and \<open>now - timestamp < CACHE_EXPIRE_TIME\<close>, none
  otherwise (in part_000 with its own expiry time). An entry put at \<open>t0\<close> is returned
  while \<open>now - t0 < CACHE_EXPIRE_TIME\<close> and is not returned at
  \<open>t0 + CACHE_EXPIRE_TIME + 1\<close>.\<close>

theorem cache_get_fresh_only:
  "cache_get c key now = spec_get CACHE_EXPIRE_TIME (map_of c) key now \<and>
   cache_get (cache_put c key d t0) key now =
     (if now - t0 < CACHE_EXPIRE_TIME then Some \<lparr>data = d, timestamp = t0\<rparr> else None) \<and>
   cache_get (cache_put c key d t0) key (t0 + CACHE_EXPIRE_TIME + 1) = None \<and>
   cache_get_part000 c key now = spec_get CACHE_EXPIRE_TIME_part000 (map_of c) key now"
proof -
  have "cache_get (cache_put c key d t0) key (t0 + CACHE_EXPIRE_TIME + 1) = None"
    by (simp add: cache_get_after_put)
  then show ?thesis
    using cache_get_spec [of c key now] cache_get_spec_part000 [of c key now]
      cache_get_after_put [of c key d t0 now]
    by simp
qed

subsection \<open>Frames of the handlers and invariants of the runs\<close>

lemmas fetch_start_defs = fetchNearby_def fetchFountains_def abort_current_def issue_fetch_def
  showLoadingIndicator_def Let_def

lemmas fetch_settled_defs = fetchNearby_settled_def fetchFountains_settled_def fetch_finally_def
  fetch_catch_def fetchNearby_try_def fetchFountains_try_def renderMarkers_def
  showNotification_def hideLoadingIndicator_def Let_def

lemma getMaxMarkersForZoom_le: "getMaxMarkersForZoom zoom \<le> 1000"
  by (simp add: getMaxMarkersForZoom_def)

lemma renderMarkers_Inr:
  assumes "renderMarkers s zoom elements = Inr s'"
  shows "\<exists>els. elements = Some els \<and> fountains s' = take (getMaxMarkersForZoom zoom) els"
    and "bboxCache s' = bboxCache s" and "notifications s' = notifications s"
    and "awaiting s' = awaiting s" and "aborted s' = aborted s" and "fetches s' = fetches s"
    and "currentFetchController s' = currentFetchController s"
    and "userLocation s' = userLocation s" and "fetchTimeout s' = fetchTimeout s"
  using assms
  by (auto simp: renderMarkers_def hideLoadingIndicator_def Let_def split: option.splits if_splits)

lemma fetch_catch_finally_abort:
  "fetch_finally (fetch_catch msg (s, Some AbortError)) =
     s\<lparr>loadingIndicator := False, currentFetchController := None\<rparr>"
  by (simp add: fetch_finally_def fetch_catch_def hideLoadingIndicator_def)

lemma fetch_catch_finally_error:
  "err \<noteq> AbortError \<Longrightarrow> fetch_finally (fetch_catch msg (s, Some err)) =
     s\<lparr>notifications := notifications s @ [(msg, ''error'')], loadingIndicator := False,
       currentFetchController := None\<rparr>"
  by (simp add: fetch_finally_def fetch_catch_def hideLoadingIndicator_def showNotification_def)

lemmas step_defs = step_def moveend_def moveend_timeout_def locationfound_def refresh_click_def
  deviceOrientationHandler_def

lemma bboxCache_fetch_start [simp]:
  "bboxCache (fetchNearby s la lo r) = bboxCache s"
  "bboxCache (fetchFountains s b key) = bboxCache s"
  by (simp_all add: fetch_start_defs split: option.splits)

lemma fountains_fetch_start [simp]:
  "fountains (fetchNearby s la lo r) = fountains s"
  "fountains (fetchFountains s b key) = fountains s"
  by (simp_all add: fetch_start_defs split: option.splits)

lemma fetchNearby_settled_cache [simp]:
  "bboxCache (fetchNearby_settled s zoom result) = bboxCache s"
  by (auto simp: fetch_settled_defs
      split: fetch_result.splits json_result.splits option.splits if_splits)

lemma fetchFountains_settled_cache:
  "bboxCache (fetchFountains_settled s zoom key result now) = bboxCache s \<or>
   (\<exists>d. bboxCache (fetchFountains_settled s zoom key result now) = cache_put (bboxCache s) key d now)"
  by (auto simp: fetch_settled_defs
      split: fetch_result.splits json_result.splits option.splits if_splits)

lemma settled_fountains:
  "fountains (fetchNearby_settled s zoom result) = fountains s \<or>
   (\<exists>els. fountains (fetchNearby_settled s zoom result) = take (getMaxMarkersForZoom zoom) els)"
  "fountains (fetchFountains_settled s zoom key result now) = fountains s \<or>
   (\<exists>els. fountains (fetchFountains_settled s zoom key result now) = take (getMaxMarkersForZoom zoom) els)"
  by (auto simp: fetch_settled_defs
      split: fetch_result.splits json_result.splits option.splits if_splits)

lemma moveend_timeout_cache [simp]: "bboxCache (moveend_timeout L s zoom b now) = bboxCache s"
  by (auto simp: moveend_timeout_def Let_def
      split: option.splits sum.splits dest: renderMarkers_Inr)

lemma moveend_timeout_fountains:
  "fountains (moveend_timeout L s zoom b now) = fountains s \<or>
   (\<exists>els. fountains (moveend_timeout L s zoom b now) = take (getMaxMarkersForZoom zoom) els)"
  by (auto simp: moveend_timeout_def Let_def
      split: option.splits sum.splits dest: renderMarkers_Inr)

lemma step_cache:
  "bboxCache (step L s ev) = bboxCache s \<or> bboxCache (step L s ev) = [] \<or>
   (\<exists>key d now. bboxCache (step L s ev) = cache_put (bboxCache s) key d now)"
proof (cases ev)
  case (Settled n result zoom now)
  show ?thesis
  proof (cases "map_of (awaiting s) n")
    case None
    then show ?thesis by (simp add: step_def Settled)
  next
    case (Some req)
    show ?thesis
    proof (cases req)
      case (Nearby la lo r)
      then show ?thesis by (simp add: step_def Settled Some Let_def)
    next
      case (Bbox b key)
      let ?s = "s\<lparr>awaiting := AList.delete n (awaiting s)\<rparr>"
      have "bboxCache (fetchFountains_settled ?s zoom key r now) = bboxCache s \<or>
        (\<exists>d. bboxCache (fetchFountains_settled ?s zoom key r now) = cache_put (bboxCache s) key d now)" for r
        using fetchFountains_settled_cache [of ?s zoom key r now] by simp
      then show ?thesis
        by (simp add: step_def Settled Some Bbox Let_def) blast
    qed
  qed
next
  case (Timeout zoom b now)
  then show ?thesis by (simp add: step_def split: option.splits)
qed (simp_all add: step_def moveend_def locationfound_def refresh_click_def
    deviceOrientationHandler_def Let_def split: prod.splits)

lemma step_cache_ok: "cache_ok s \<Longrightarrow> cache_ok (step L s ev)"
  using step_cache [of L s ev]
  by (auto simp: cache_ok_def cache_put_length cache_put_distinct)

lemma run_cache_ok: "cache_ok s \<Longrightarrow> cache_ok (run L s evs)"
  unfolding run_def by (induction evs arbitrary: s) (auto simp: step_cache_ok)

lemma run_cache_bounded:
  "distinct (map fst (bboxCache (run L initial_app evs))) \<and>
   length (bboxCache (run L initial_app evs)) \<le> MAX_CACHE_ENTRIES"
proof -
  have "cache_ok initial_app" by (simp add: cache_ok_def initial_app_def)
  then show ?thesis using run_cache_ok cache_ok_def by blast
qed

lemma step_fountains:
  "fountains (step L s ev) = fountains s \<or>
   (\<exists>zoom els. fountains (step L s ev) = take (getMaxMarkersForZoom zoom) els)"
proof (cases ev)
  case (Settled n result zoom now)
  show ?thesis
  proof (cases "map_of (awaiting s) n")
    case None
    then show ?thesis by (simp add: step_def Settled)
  next
    case (Some req)
    let ?s = "s\<lparr>awaiting := AList.delete n (awaiting s)\<rparr>"
    have a: "fountains (fetchNearby_settled ?s zoom r) = fountains s \<or>
      (\<exists>z els. fountains (fetchNearby_settled ?s zoom r) = take (getMaxMarkersForZoom z) els)" for r
      using settled_fountains(1) [of ?s zoom r] by auto
    have b: "fountains (fetchFountains_settled ?s zoom key r now) = fountains s \<or>
      (\<exists>z els. fountains (fetchFountains_settled ?s zoom key r now) = take (getMaxMarkersForZoom z) els)" for r key
      using settled_fountains(2) [of ?s zoom key r now] by auto
    show ?thesis
      using a b by (cases req) (simp_all add: step_def Settled Some Let_def)
  qed
next
  case (Timeout zoom b now)
  have "fountains (moveend_timeout L (s\<lparr>fetchTimeout := None\<rparr>) zoom b now) = fountains s \<or>
   (\<exists>z els. fountains (moveend_timeout L (s\<lparr>fetchTimeout := None\<rparr>) zoom b now) = take (getMaxMarkersForZoom z) els)"
    using moveend_timeout_fountains [of L "s\<lparr>fetchTimeout := None\<rparr>" zoom b now] by auto
  then show ?thesis
    by (simp add: step_def Timeout split: option.splits)
qed (simp_all add: step_def moveend_def locationfound_def refresh_click_def
    deviceOrientationHandler_def Let_def split: prod.splits)

lemma step_fountains_bounded:
  "length (fountains s) \<le> 1000 \<Longrightarrow> length (fountains (step L s ev)) \<le> 1000"
  using step_fountains [of L s ev] getMaxMarkersForZoom_le
  by (auto simp: min_def intro: order_trans)

lemma run_fountains_bounded: "length (fountains (run L initial_app evs)) \<le> 1000"
proof -
  have "length (fountains s) \<le> 1000 \<Longrightarrow> length (fountains (run L s evs)) \<le> 1000" for s
    unfolding run_def by (induction evs arbitrary: s) (auto simp: step_fountains_bounded)
  then show ?thesis by (simp add: initial_app_def)
qed

lemma list_all_less_Suc: "list_all (\<lambda>r. f r < n) xs \<Longrightarrow> list_all (\<lambda>r. f r < Suc n) xs"
  by (induction xs) auto

lemma list_all_delete: "list_all P xs \<Longrightarrow> list_all P (AList.delete k xs)"
  by (induction xs) auto

lemma fetch_start_ids:
  assumes "ids_below_fetches s"
  shows "ids_below_fetches (fetchNearby s la lo r)" "ids_below_fetches (fetchFountains s b key)"
  using assms
  by (auto simp: ids_below_fetches_def fetch_start_defs list_all_less_Suc [where f = fst]
      list_all_less_Suc [where f = "\<lambda>n. n"] split: option.splits)

lemma renderMarkers_ids:
  "renderMarkers s zoom elements = Inr s' \<Longrightarrow> ids_below_fetches s' = ids_below_fetches s"
  by (auto simp: renderMarkers_def hideLoadingIndicator_def Let_def ids_below_fetches_def
      split: option.splits if_splits)

lemma fetch_settled_ids:
  assumes "ids_below_fetches s"
  shows "ids_below_fetches (fetchNearby_settled s zoom result)"
    "ids_below_fetches (fetchFountains_settled s zoom key result now)"
  using assms
  by (auto simp: ids_below_fetches_def fetch_settled_defs
      split: fetch_result.splits json_result.splits option.splits if_splits)

lemma moveend_timeout_ids:
  assumes "ids_below_fetches s"
  shows "ids_below_fetches (moveend_timeout L s zoom b now)"
proof -
  have "ids_below_fetches (fetchFountains s b key\<lparr>lastFetchBounds := Some b\<rparr>)" for key
    using fetch_start_ids(2) [OF assms, of b key] by (simp add: ids_below_fetches_def)
  then show ?thesis
    using assms
    by (auto simp: moveend_timeout_def Let_def renderMarkers_ids split: option.splits sum.splits)
qed

lemma step_ids: 
  assumes "ids_below_fetches s"
  shows "ids_below_fetches (step L s ev)"
proof (cases ev)
  case (Moveend zoom)
  then show ?thesis using assms by (simp add: step_def moveend_def ids_below_fetches_def Let_def)
next
  case (Timeout zoom b now)
  have "ids_below_fetches (s\<lparr>fetchTimeout := None\<rparr>)"
    using assms by (simp add: ids_below_fetches_def)
  then show ?thesis
    using assms by (simp add: step_def Timeout moveend_timeout_ids split: option.splits)
next
  case (Locationfound e)
  have "ids_below_fetches (s\<lparr>userLocation := Some e\<rparr>)"
    using assms by (simp add: ids_below_fetches_def)
  then show ?thesis
    by (simp add: step_def Locationfound locationfound_def Let_def fetch_start_ids)
next
  case (Settled n result zoom now)
  have "ids_below_fetches (s\<lparr>awaiting := AList.delete n (awaiting s)\<rparr>)"
    using assms by (simp add: ids_below_fetches_def list_all_delete)
  then show ?thesis
    using assms
    by (simp add: step_def Settled Let_def fetch_settled_ids split: option.splits request.splits)
next
  case RefreshClick
  then show ?thesis using assms by (simp add: step_def refresh_click_def ids_below_fetches_def)
next
  case (DeviceOrientation e)
  then show ?thesis
    using assms by (simp add: step_def deviceOrientationHandler_def ids_below_fetches_def Let_def split: prod.splits)
qed

lemma run_ids: "ids_below_fetches (run L initial_app evs)"
proof -
  have "ids_below_fetches s \<Longrightarrow> ids_below_fetches (run L s evs)" for s
    unfolding run_def by (induction evs arbitrary: s) (auto simp: step_ids)
  moreover have "ids_below_fetches initial_app"
    by (simp add: ids_below_fetches_def initial_app_def)
  ultimately show ?thesis by blast
qed

lemma filter_below:
  "list_all (\<lambda>r. fst r < (n::nat)) xs \<Longrightarrow> filter (\<lambda>r. fst r \<noteq> n \<and> P r) xs = filter P xs"
  by (induction xs) auto

lemma in_flight_fetch_start:
  assumes "ids_below_fetches s"
  shows "in_flight (fetchNearby s la lo r) =
      filter (\<lambda>q. Some (fst q) \<noteq> currentFetchController s) (in_flight s) @ [(fetches s, Nearby la lo r)]"
    and "in_flight (fetchFountains s b key) =
      filter (\<lambda>q. Some (fst q) \<noteq> currentFetchController s) (in_flight s) @ [(fetches s, Bbox b key)]"
  using assms
  by (auto simp: ids_below_fetches_def in_flight_def fetch_start_defs list_all_iff
      split: option.splits intro!: filter_cong)

lemma in_flight_fetch_start_part000:
  assumes "ids_below_fetches s"
  shows "in_flight (fetchNearby_part000 s la lo r) = in_flight s @ [(fetches s, Nearby la lo r)]"
    and "in_flight (fetchFountains_part000 s b key) = in_flight s @ [(fetches s, Bbox b key)]"
  using assms
  by (auto simp: ids_below_fetches_def in_flight_def fetchNearby_part000_def
      fetchFountains_part000_def issue_fetch_def list_all_iff)

lemma only_controller_in_flight:
  assumes "set (map fst (in_flight s)) \<subseteq> set_option (currentFetchController s)"
  shows "filter (\<lambda>q. Some (fst q) \<noteq> currentFetchController s) (in_flight s) = []"
  using assms by (auto simp: filter_empty_conv)

lemma pred_option_less_Suc:
  "pred_option (\<lambda>c. c < n) x \<Longrightarrow> pred_option (\<lambda>c. c < Suc n) x"
  by (cases x) auto

lemma fetch_start_part000_ids:
  assumes "ids_below_fetches s"
  shows "ids_below_fetches (fetchNearby_part000 s la lo r)"
    "ids_below_fetches (fetchFountains_part000 s b key)"
  using assms
  by (auto simp: ids_below_fetches_def fetchNearby_part000_def fetchFountains_part000_def
      issue_fetch_def list_all_less_Suc [where f = fst] list_all_less_Suc [where f = "\<lambda>n. n"]
      pred_option_less_Suc)

lemma fetch_settled_part000_ids:
  assumes "ids_below_fetches s"
  shows "ids_below_fetches (fetchNearby_settled_part000 s result)"
    "ids_below_fetches (fetchFountains_settled_part000 s key result now)"
  using assms
  by (auto simp: ids_below_fetches_def fetchNearby_settled_part000_def
      fetchFountains_settled_part000_def fetch_catch_part000_def fetchNearby_try_part000_def
      fetchFountains_try_part000_def renderMarkers_part000_def showNotification_def Let_def
      split: fetch_result.splits json_result.splits option.splits if_splits)

lemma step_part000_ids:
  assumes "ids_below_fetches s"
  shows "ids_below_fetches (step_part000 s ev)"
proof (cases ev)
  case (Moveend zoom)
  then show ?thesis using assms by (simp add: step_part000_def moveend_part000_def ids_below_fetches_def)
next
  case (Timeout zoom b now)
  have a: "ids_below_fetches (s\<lparr>fetchTimeout := None\<rparr>)"
    using assms by (simp add: ids_below_fetches_def)
  have "ids_below_fetches (renderMarkers_part000 (s\<lparr>fetchTimeout := None\<rparr>) d)" for d
    using assms by (simp add: ids_below_fetches_def renderMarkers_part000_def)
  then show ?thesis
    using assms fetch_start_part000_ids(2) [OF a]
    by (simp add: step_part000_def Timeout moveend_timeout_part000_def Let_def split: option.splits)
next
  case (Locationfound e)
  have "ids_below_fetches (s\<lparr>userLocation := Some e\<rparr>)"
    using assms by (simp add: ids_below_fetches_def)
  then show ?thesis
    by (simp add: step_part000_def Locationfound locationfound_part000_def Let_def
        fetch_start_part000_ids)
next
  case (Settled n result zoom now)
  have "ids_below_fetches (s\<lparr>awaiting := AList.delete n (awaiting s)\<rparr>)"
    using assms by (simp add: ids_below_fetches_def list_all_delete)
  then show ?thesis
    using assms
    by (simp add: step_part000_def Settled Let_def fetch_settled_part000_ids
        split: option.splits request.splits)
next
  case RefreshClick
  then show ?thesis using assms by (simp add: step_part000_def refresh_click_def ids_below_fetches_def)
next
  case (DeviceOrientation e)
  then show ?thesis
    using assms
    by (simp add: step_part000_def deviceOrientationHandler_def ids_below_fetches_def Let_def
        split: prod.splits)
qed

lemma run_part000_ids: "ids_below_fetches (run_part000 initial_app evs)"
proof -
  have "ids_below_fetches s \<Longrightarrow> ids_below_fetches (run_part000 s evs)" for s
    unfolding run_part000_def by (induction evs arbitrary: s) (auto simp: step_part000_ids)
  moreover have "ids_below_fetches initial_app"
    by (simp add: ids_below_fetches_def initial_app_def)
  ultimately show ?thesis by blast
qed

lemma currentFetchController_fetch_start:
  "currentFetchController (fetchNearby s la lo r) = Some (fetches s)"
  "currentFetchController (fetchFountains s b key) = Some (fetches s)"
  by (simp_all add: fetch_start_defs split: option.splits)

lemma aborted_fetch_start:
  "aborted (fetchNearby s la lo r) = (case currentFetchController s of None \<Rightarrow> [] | Some c \<Rightarrow> [c]) @ aborted s"
  "aborted (fetchFountains s b key) = (case currentFetchController s of None \<Rightarrow> [] | Some c \<Rightarrow> [c]) @ aborted s"
  by (simp_all add: fetch_start_defs split: option.splits)

lemma run_Nil [simp]: "run L s [] = s" by (simp add: run_def)
lemma run_Cons [simp]: "run L s (ev # evs) = run L (step L s ev) evs" by (simp add: run_def)
lemma run_part000_Nil [simp]: "run_part000 s [] = s" by (simp add: run_part000_def)
lemma run_part000_Cons [simp]: "run_part000 s (ev # evs) = run_part000 (step_part000 s ev) evs"
  by (simp add: run_part000_def)

lemmas eval_defs = step_def step_part000_def initial_app_def in_flight_def locationfound_def
  locationfound_part000_def moveend_def moveend_part000_def moveend_timeout_def
  moveend_timeout_part000_def fetchNearby_def fetchFountains_def fetchNearby_part000_def
  fetchFountains_part000_def abort_current_def issue_fetch_def showLoadingIndicator_def
  hideLoadingIndicator_def fetchNearby_settled_def fetchFountains_settled_def
  fetchNearby_settled_part000_def fetchFountains_settled_part000_def fetch_finally_def
  fetch_catch_def fetch_catch_part000_def fetchNearby_try_def fetchFountains_try_def
  fetchNearby_try_part000_def fetchFountains_try_part000_def renderMarkers_def
  renderMarkers_part000_def showNotification_def delivers_abort_def cache_get_def
  cache_get_part000_def boundsOverlapSignificantly_def bounds_area_def getDelayForZoom_def
  getMaxMarkersForZoom_def MIN_ZOOM_FOR_FETCH_def refresh_click_def Let_def

text \<open>Claim C4, as the code has it. In app.js, a put into a cache of distinct keys with at
  most \<open>MAX_CACHE_ENTRIES\<close> (50) entries leaves at most 50 entries, and the key holds the
  new entry. Below 50 entries nothing is evicted; at 50 entries the eviction removes the
  25 entries with the oldest timestamps (every removed entry is at most as recent as every
  entry kept). In every run of app.js from the initial state the cache has distinct keys
  and at most 50 entries. (part_000 has no eviction.)\<close>

theorem cache_put_bounded:
  assumes "distinct (map fst c)" and "length c \<le> MAX_CACHE_ENTRIES"
  shows "length (cache_put c key d now) \<le> MAX_CACHE_ENTRIES \<and>
    distinct (map fst (cache_put c key d now)) \<and>
    map_of (cache_put c key d now) key = Some \<lparr>data = d, timestamp = now\<rparr> \<and>
    (length c < MAX_CACHE_ENTRIES \<longrightarrow> cache_evict c = c) \<and>
    (length c = MAX_CACHE_ENTRIES \<longrightarrow>
       set (cache_evict c) \<subseteq> set c \<and>
       length (cache_evict c) = MAX_CACHE_ENTRIES - MAX_CACHE_ENTRIES div 2 \<and>
       (\<forall>r \<in> set c - set (cache_evict c). \<forall>e \<in> set (cache_evict c).
          timestamp (snd r) \<le> timestamp (snd e))) \<and>
    distinct (map fst (bboxCache (run L initial_app evs))) \<and>
    length (bboxCache (run L initial_app evs)) \<le> MAX_CACHE_ENTRIES"
  using cache_put_length [OF assms] cache_put_distinct [OF assms(1)] cache_put_lookup
    cache_evict_small [of c] cache_evict_subset [of c] cache_evict_length [OF assms(1)]
    cache_evict_oldest [OF assms(1)] run_cache_bounded [of L evs]
  by auto

theorem cache_put_bounded_witness:
  "distinct (map fst full_cache) \<and> length full_cache = MAX_CACHE_ENTRIES \<and>
   length (cache_evict full_cache) = 25 \<and>
   length (cache_put full_cache ''52.3,4.8,52.4,5.0'' (Some []) 100) = 26 \<and>
   map_of (cache_put full_cache ''52.3,4.8,52.4,5.0'' (Some []) 100) ''52.3,4.8,52.4,5.0'' =
     Some \<lparr>data = Some [], timestamp = 100\<rparr>"
proof -
  have a: "distinct (map fst full_cache)"
    unfolding full_cache_def by code_simp
  have b: "length full_cache = MAX_CACHE_ENTRIES"
    by (simp add: full_cache_def MAX_CACHE_ENTRIES_def)
  have c: "length (cache_put full_cache ''52.3,4.8,52.4,5.0'' (Some []) 100) = 26"
    unfolding full_cache_def by code_simp
  have le: "length full_cache \<le> MAX_CACHE_ENTRIES"
    using b by simp
  have "length (cache_evict full_cache) = MAX_CACHE_ENTRIES - MAX_CACHE_ENTRIES div 2"
    and "map_of (cache_put full_cache ''52.3,4.8,52.4,5.0'' (Some []) 100) ''52.3,4.8,52.4,5.0'' =
      Some \<lparr>data = Some [], timestamp = 100\<rparr>"
    using cache_put_bounded [OF a le, of "''52.3,4.8,52.4,5.0''" "Some []" 100 Leaflet "[]"] b by blast+
  then show ?thesis
    using a b c by (simp add: MAX_CACHE_ENTRIES_def)
qed

text \<open>Claim C4 as stated fails in part_000: a put into a cache of 50 entries leaves 51.\<close>

theorem part000_cache_exceeds_maximum:
  "length (cache_put_part000 full_cache ''52.300,4.800,52.400,5.000'' (Some []) 100) = 51 \<and>
   MAX_CACHE_ENTRIES = 50"
proof -
  have "length (cache_put_part000 full_cache ''52.300,4.800,52.400,5.000'' (Some []) 100) = 51"
    unfolding full_cache_def by code_simp
  then show ?thesis by (simp add: MAX_CACHE_ENTRIES_def)
qed

subsection \<open>Cancellation and failure of a fetch\<close>

text \<open>What the calls leave when their promises settle, by what the promises deliver. In
  app.js a cancelled call (\<^verbatim>\<open>fetch\<close> or \<^verbatim>\<open>json()\<close> rejects with an AbortError) shows no
  notification, writes no cache entry and does not replace \<^verbatim>\<open>window._fountains\<close>; its
  \<^verbatim>\<open>finally\<close> block hides the loading indicator and sets \<^verbatim>\<open>currentFetchController\<close> to
  null. A call that fails otherwise (\<^verbatim>\<open>fetch\<close> rejects, the response is not ok, \<^verbatim>\<open>json()\<close>
  rejects, or \<^verbatim>\<open>elements\<close> is missing) shows the error notification and leaves
  \<^verbatim>\<open>window._fountains\<close> as it was, in both variants (in part_000 a missing \<^verbatim>\<open>elements\<close>
  is no failure: it publishes the empty list).\<close>

lemma cancelled_fetch_settles:
  "fetchNearby_settled s zoom (Rejected AbortError) =
     s\<lparr>loadingIndicator := False, currentFetchController := None\<rparr>"
  "fetchNearby_settled s zoom (Response True status (JsonRejected AbortError)) =
     s\<lparr>loadingIndicator := False, currentFetchController := None\<rparr>"
  "fetchFountains_settled s zoom key (Rejected AbortError) now =
     s\<lparr>loadingIndicator := False, currentFetchController := None\<rparr>"
  "fetchFountains_settled s zoom key (Response True status (JsonRejected AbortError)) now =
     s\<lparr>loadingIndicator := False, currentFetchController := None\<rparr>"
  by (simp_all add: fetchNearby_settled_def fetchFountains_settled_def fetchNearby_try_def
      fetchFountains_try_def fetch_catch_finally_abort)

lemma failed_fetchNearby_settles:
  assumes "err \<noteq> AbortError"
  shows "fetchNearby_settled s zoom (Rejected err) =
      s\<lparr>notifications := notifications s @
          [(''Failed to load nearby water sources. Please try again.'', ''error'')],
        loadingIndicator := False, currentFetchController := None\<rparr>"
    and "fetchNearby_settled s zoom (Response False status body) =
      s\<lparr>notifications := notifications s @
          [(''Failed to load nearby water sources. Please try again.'', ''error'')],
        loadingIndicator := False, currentFetchController := None\<rparr>"
    and "fetchNearby_settled s zoom (Response True status (JsonRejected err)) =
      s\<lparr>notifications := notifications s @
          [(''Failed to load nearby water sources. Please try again.'', ''error'')],
        loadingIndicator := False, currentFetchController := None\<rparr>"
    and "fetchNearby_settled s zoom (Response True status (JsonData None)) =
      s\<lparr>notifications := notifications s @
          [(''Failed to load nearby water sources. Please try again.'', ''error'')],
        loadingIndicator := False, currentFetchController := None\<rparr>"
  using assms
  by (simp_all add: fetchNearby_settled_def fetchNearby_try_def renderMarkers_def
      fetch_catch_finally_error)

lemma failed_fetchFountains_settles:
  assumes "err \<noteq> AbortError"
  shows "fetchFountains_settled s zoom key (Rejected err) now =
      s\<lparr>notifications := notifications s @
          [(''Failed to load water sources in this area. Please try again.'', ''error'')],
        loadingIndicator := False, currentFetchController := None\<rparr>"
    and "fetchFountains_settled s zoom key (Response False status body) now =
      s\<lparr>notifications := notifications s @
          [(''Failed to load water sources in this area. Please try again.'', ''error'')],
        loadingIndicator := False, currentFetchController := None\<rparr>"
    and "fetchFountains_settled s zoom key (Response True status (JsonRejected err)) now =
      s\<lparr>notifications := notifications s @
          [(''Failed to load water sources in this area. Please try again.'', ''error'')],
        loadingIndicator := False, currentFetchController := None\<rparr>"
    and "fetchFountains_settled s zoom key (Response True status (JsonData None)) now =
      s\<lparr>bboxCache := cache_put (bboxCache s) key None now,
        notifications := notifications s @
          [(''Failed to load water sources in this area. Please try again.'', ''error'')],
        loadingIndicator := False, currentFetchController := None\<rparr>"
  using assms
  by (simp_all add: fetchFountains_settled_def fetchFountains_try_def renderMarkers_def
      fetch_catch_finally_error Let_def)

lemma failed_fetch_settles_part000:
  "fetchNearby_settled_part000 s (Rejected err) =
     s\<lparr>notifications := notifications s @
       [(''Failed to load nearby water sources. Please try again.'', ''error'')]\<rparr>"
  "fetchNearby_settled_part000 s (Response False status body) =
     s\<lparr>notifications := notifications s @
       [(''Failed to load nearby water sources. Please try again.'', ''error'')]\<rparr>"
  "fetchNearby_settled_part000 s (Response True status (JsonRejected err)) =
     s\<lparr>notifications := notifications s @
       [(''Failed to load nearby water sources. Please try again.'', ''error'')]\<rparr>"
  "fetchFountains_settled_part000 s key (Rejected err) now =
     s\<lparr>notifications := notifications s @
       [(''Failed to load water sources in this area. Please try again.'', ''error'')]\<rparr>"
  "fetchFountains_settled_part000 s key (Response False status body) now =
     s\<lparr>notifications := notifications s @
       [(''Failed to load water sources in this area. Please try again.'', ''error'')]\<rparr>"
  "fetchFountains_settled_part000 s key (Response True status (JsonRejected err)) now =
     s\<lparr>notifications := notifications s @
       [(''Failed to load water sources in this area. Please try again.'', ''error'')]\<rparr>"
  by (simp_all add: fetchNearby_settled_part000_def fetchFountains_settled_part000_def
      fetch_catch_part000_def fetchNearby_try_part000_def fetchFountains_try_part000_def
      showNotification_def)

lemma aborted_request_settles:
  assumes "map_of (awaiting s) n = Some req" "n \<in> set (aborted s)"
  shows "step L s (Settled n result zoom now) =
    s\<lparr>awaiting := AList.delete n (awaiting s), loadingIndicator := False,
      currentFetchController := None\<rparr>"
  using assms
  by (cases req) (simp_all add: step_def Let_def cancelled_fetch_settles)

text \<open>Claim C7. When a fetch ends in cancellation, no further action is taken (no
  notification, no cache write, no publish); when it ends in any other failure, the error
  notification is shown and the published fountains stay as they were. app.js breaks the
  first part: \<^verbatim>\<open>fetchNearby\<close> (request 0) is in flight when the timer callback starts
  \<^verbatim>\<open>fetchFountains\<close> (request 1), which aborts request 0, stores its own controller in
  \<^verbatim>\<open>currentFetchController\<close> and shows the loading indicator. When the promise of
  request 0 then rejects with the AbortError, the \<^verbatim>\<open>catch\<close> block returns at once, but the
  \<^verbatim>\<open>finally\<close> block runs: it hides the indicator and sets \<^verbatim>\<open>currentFetchController\<close> to
  null while request 1 is still in flight. Notifications, cache and
  \<^verbatim>\<open>window._fountains\<close> stay as they were.\<close>

theorem cancelled_fetch_clears_successor:
  "(let s = run Leaflet initial_app
        [Locationfound \<lparr>lat = 52, lng = 5\<rparr>, Moveend 16,
         Timeout 16 \<lparr>south = 51.9, west = 4.9, north = 52.1, east = 5.1\<rparr> 1000];
        s' = step Leaflet s (Settled 0 (Rejected AbortError) 16 1001)
    in map fst (awaiting s) = [0, 1] \<and> aborted s = [0] \<and> map fst (in_flight s) = [1] \<and>
       currentFetchController s = Some 1 \<and> loadingIndicator s = True \<and>
       map fst (in_flight s') = [1] \<and>
       currentFetchController s' = None \<and> loadingIndicator s' = False \<and>
       notifications s' = notifications s \<and> bboxCache s' = bboxCache s \<and>
       fountains s' = fountains s)"
  by (simp add: eval_defs)

subsection \<open>One fetch at a time\<close>

text \<open>Claim C3, as the code has it. In every run of app.js, a new \<^verbatim>\<open>fetchNearby\<close> or
  \<^verbatim>\<open>fetchFountains\<close> takes the request whose controller \<^verbatim>\<open>currentFetchController\<close>
  holds out of flight before it issues its own, and holds the new controller afterwards;
  so when no request is in flight but the one the variable holds, exactly the new request
  is in flight after the call. In every run of part_000 a new fetch leaves every request
  in flight and adds its own.\<close>

theorem new_fetch_aborts_held_controller:
  "(let s = run L initial_app evs in
      in_flight (fetchNearby s la lo r) =
        filter (\<lambda>q. Some (fst q) \<noteq> currentFetchController s) (in_flight s) @
          [(fetches s, Nearby la lo r)] \<and>
      in_flight (fetchFountains s b key) =
        filter (\<lambda>q. Some (fst q) \<noteq> currentFetchController s) (in_flight s) @
          [(fetches s, Bbox b key)] \<and>
      currentFetchController (fetchNearby s la lo r) = Some (fetches s) \<and>
      currentFetchController (fetchFountains s b key) = Some (fetches s) \<and>
      (\<forall>c. currentFetchController s = Some c \<longrightarrow>
         c \<in> set (aborted (fetchNearby s la lo r)) \<and>
         c \<in> set (aborted (fetchFountains s b key))) \<and>
      (set (map fst (in_flight s)) \<subseteq> set_option (currentFetchController s) \<longrightarrow>
         in_flight (fetchNearby s la lo r) = [(fetches s, Nearby la lo r)] \<and>
         in_flight (fetchFountains s b key) = [(fetches s, Bbox b key)])) \<and>
   (let s = run_part000 initial_app evs in
      in_flight (fetchNearby_part000 s la lo r) = in_flight s @ [(fetches s, Nearby la lo r)] \<and>
      in_flight (fetchFountains_part000 s b key) = in_flight s @ [(fetches s, Bbox b key)])"
  using in_flight_fetch_start [OF run_ids [of L evs]]
    in_flight_fetch_start_part000 [OF run_part000_ids [of evs]]
    only_controller_in_flight [of "run L initial_app evs"]
  by (simp add: Let_def currentFetchController_fetch_start aborted_fetch_start)

theorem new_fetch_aborts_held_controller_witness:
  "in_flight (run Leaflet initial_app [Locationfound \<lparr>lat = 52, lng = 5\<rparr>]) = [(0, Nearby 52 5 1000)] \<and>
   currentFetchController (run Leaflet initial_app [Locationfound \<lparr>lat = 52, lng = 5\<rparr>]) = Some 0 \<and>
   in_flight (fetchFountains (run Leaflet initial_app [Locationfound \<lparr>lat = 52, lng = 5\<rparr>])
       \<lparr>south = 51.9, west = 4.9, north = 52.1, east = 5.1\<rparr> ''51.9,4.9,52.1,5.1'') =
     [(1, Bbox \<lparr>south = 51.9, west = 4.9, north = 52.1, east = 5.1\<rparr> ''51.9,4.9,52.1,5.1'')]"
proof -
  let ?s = "run Leaflet initial_app [Locationfound \<lparr>lat = 52, lng = 5\<rparr>]"
  have a: "in_flight ?s = [(0, Nearby 52 5 1000)]" "currentFetchController ?s = Some 0"
    "fetches ?s = 1"
    by (simp_all add: eval_defs)
  then have "set (map fst (in_flight ?s)) \<subseteq> set_option (currentFetchController ?s)"
    by simp
  then show ?thesis
    using new_fetch_aborts_held_controller [of Leaflet "[Locationfound \<lparr>lat = 52, lng = 5\<rparr>]" 0 0 0
        "\<lparr>south = 51.9, west = 4.9, north = 52.1, east = 5.1\<rparr>" "''51.9,4.9,52.1,5.1''"] a
    by (simp add: Let_def)
qed

text \<open>Claim C3 as stated fails in part_000: after \<^verbatim>\<open>locationfound\<close> and a timer callback
  the requests 0 and 1 are both in flight.\<close>

theorem part000_two_fetches_in_flight:
  "map fst (in_flight (run_part000 initial_app
      [Locationfound \<lparr>lat = 52, lng = 5\<rparr>, Moveend 16,
       Timeout 16 \<lparr>south = 51.9, west = 4.9, north = 52.1, east = 5.1\<rparr> 1000])) = [0, 1]"
  by (simp add: eval_defs)

text \<open>In app.js the \<^verbatim>\<open>finally\<close> block of an aborted call sets
  \<^verbatim>\<open>currentFetchController\<close> to null after its successor has stored its own controller
  there, so the next fetch does not abort the successor: the requests 1 and 2 are both in
  flight.\<close>

lemma app_js_two_in_flight:
  "map fst (in_flight (run Leaflet initial_app
      [Locationfound \<lparr>lat = 52, lng = 5\<rparr>, Moveend 16,
       Timeout 16 \<lparr>south = 51.9, west = 4.9, north = 52.1, east = 5.1\<rparr> 1000,
       Settled 0 (Rejected AbortError) 16 1001,
       Locationfound \<lparr>lat = 52, lng = 5\<rparr>])) = [1, 2]"
  by (simp add: eval_defs)

subsection \<open>The zoom guard\<close>

text \<open>Claim C8, as the code has it. In app.js a \<^verbatim>\<open>moveend\<close> with the zoom below
  \<open>MIN_ZOOM_FOR_FETCH\<close> (10) only cancels the pending timer: no timer is pending
  afterwards, so its callback does not run (a timer event then changes nothing), and no
  request is issued. (part_000 has no zoom guard.)\<close>

theorem low_zoom_moveend_cancels:
  assumes "zoom < MIN_ZOOM_FOR_FETCH"
  shows "step L s (Moveend zoom) = s\<lparr>fetchTimeout := None\<rparr> \<and>
    step L (step L s (Moveend zoom)) (Timeout z b now) = step L s (Moveend zoom) \<and>
    awaiting (step L s (Moveend zoom)) = awaiting s \<and>
    fetches (step L s (Moveend zoom)) = fetches s"
  using assms by (simp add: step_def moveend_def)

theorem low_zoom_moveend_cancels_witness:
  "(5::real) < MIN_ZOOM_FOR_FETCH \<and>
   fetchTimeout (run Leaflet initial_app [Moveend 16]) = Some 500 \<and>
   fetchTimeout (run Leaflet initial_app [Moveend 16, Moveend 5]) = None \<and>
   in_flight (run Leaflet initial_app [Moveend 16, Moveend 5,
     Timeout 5 \<lparr>south = 30, west = -10, north = 60, east = 40\<rparr> 1000]) = []"
proof -
  have a: "(5::real) < MIN_ZOOM_FOR_FETCH" by (simp add: MIN_ZOOM_FOR_FETCH_def)
  show ?thesis
    using low_zoom_moveend_cancels [OF a, of Leaflet "step Leaflet initial_app (Moveend 16)" 5
        "\<lparr>south = 30, west = -10, north = 60, east = 40\<rparr>" 1000] a
    by (simp add: eval_defs)
qed

text \<open>Claim C8 as stated fails in part_000: a \<^verbatim>\<open>moveend\<close> at zoom 2 leaves a timer of 500
  ms pending, and its callback issues a request.\<close>

theorem part000_low_zoom_fetches:
  "(2::real) < MIN_ZOOM_FOR_FETCH \<and>
   fetchTimeout (run_part000 initial_app [Moveend 2]) = Some 500 \<and>
   map fst (in_flight (run_part000 initial_app
     [Moveend 2, Timeout 2 \<lparr>south = -60, west = -180, north = 80, east = 180\<rparr> 1000])) = [0]"
  by (simp add: eval_defs)

subsection \<open>The published fountains\<close>

lemma drawAR_depends:
  "userLocation s1 = userLocation s2 \<Longrightarrow> fountains s1 = fountains s2 \<Longrightarrow>
   drawAR L cv s1 h = drawAR L cv s2 h"
  unfolding drawAR_def by (erule ssubst, erule ssubst) (rule refl)

lemma drawAR_NoneInView:
  "snd (drawAR L cv s h) = NoneInView n \<Longrightarrow> n = length (fountains s)"
  by (auto simp: drawAR_def Let_def split: option.splits list.splits if_splits)

lemma map_filter_replicate:
  "List.map_filter f (replicate n x) = (case f x of None \<Rightarrow> [] | Some y \<Rightarrow> replicate n y)"
  by (induction n) (auto simp: List.map_filter_simps split: option.splits)

text \<open>Claim C10. \<^verbatim>\<open>renderMarkers\<close> of app.js succeeds on a list of elements and leaves
  its first \<open>getMaxMarkersForZoom zoom\<close> elements (at most 1000) in
  \<^verbatim>\<open>window._fountains\<close>; \<^verbatim>\<open>drawAR\<close> then works on this truncated list, and the number it
  reports when none is in view is the length of the truncated list. (On a missing
  \<^verbatim>\<open>elements\<close> it throws.) In every run of app.js \<^verbatim>\<open>window._fountains\<close> has at most 1000
  elements.\<close>

theorem rendered_fountains_truncated:
  "(\<exists>s'. renderMarkers s zoom (Some els) = Inr s' \<and>
      fountains s' = take (getMaxMarkersForZoom zoom) els \<and>
      length (fountains s') \<le> getMaxMarkersForZoom zoom \<and>
      drawAR L cv s' heading = drawAR L cv (s\<lparr>fountains := take (getMaxMarkersForZoom zoom) els\<rparr>) heading \<and>
      (\<forall>n. snd (drawAR L cv s' heading) = NoneInView n \<longrightarrow>
         n = length (take (getMaxMarkersForZoom zoom) els) \<and> n \<le> getMaxMarkersForZoom zoom)) \<and>
   getMaxMarkersForZoom zoom \<le> 1000 \<and>
   renderMarkers s zoom None = Inl TypeError \<and>
   length (fountains (run L initial_app evs)) \<le> 1000"
proof -
  have "\<exists>s'. renderMarkers s zoom (Some els) = Inr s'"
    by (simp add: renderMarkers_def Let_def)
  then obtain s' where r: "renderMarkers s zoom (Some els) = Inr s'"
    by blast
  have f: "fountains s' = take (getMaxMarkersForZoom zoom) els" and u: "userLocation s' = userLocation s"
    using renderMarkers_Inr(1,8) [OF r] by auto
  have d: "drawAR L cv s' heading =
      drawAR L cv (s\<lparr>fountains := take (getMaxMarkersForZoom zoom) els\<rparr>) heading"
    by (rule drawAR_depends) (simp_all add: f u)
  have "\<forall>n. snd (drawAR L cv s' heading) = NoneInView n \<longrightarrow>
      n = length (take (getMaxMarkersForZoom zoom) els) \<and> n \<le> getMaxMarkersForZoom zoom"
    using drawAR_NoneInView [of L cv s' heading] f by auto
  then show ?thesis
    using r f d getMaxMarkersForZoom_le [of zoom] run_fountains_bounded [of L evs]
    by (auto simp: renderMarkers_def)
qed

theorem rendered_fountains_truncated_witness:
  "(let s = initial_app\<lparr>userLocation := Some \<lparr>lat = 0, lng = 0\<rparr>\<rparr>;
        e = \<lparr>el_id = 1, el_lat = None, el_lon = None, el_center = None, el_tags = None\<rparr>;
        s' = s\<lparr>fountains := replicate 50 e\<rparr>
    in renderMarkers s 5 (Some (replicate 60 e)) = Inr s' \<and>
       snd (drawAR Leaflet \<lparr>cv_width = 400, cv_height = 1000\<rparr> s' 0) = NoneInView 50 \<and>
       50 \<le> getMaxMarkersForZoom 5)"
proof -
  let ?s = "initial_app\<lparr>userLocation := Some \<lparr>lat = 0, lng = 0\<rparr>\<rparr>"
  let ?e = "\<lparr>el_id = 1, el_lat = None, el_lon = None, el_center = None, el_tags = None\<rparr>"
  let ?s' = "?s\<lparr>fountains := replicate 50 ?e\<rparr>"
  let ?cv = "\<lparr>cv_width = 400, cv_height = 1000\<rparr>"
  have r: "renderMarkers ?s 5 (Some (replicate 60 ?e)) = Inr ?s'"
    by (simp add: renderMarkers_def getMaxMarkersForZoom_def hideLoadingIndicator_def
        initial_app_def)
  have v: "snd (drawAR Leaflet ?cv ?s' 0) = NoneInView 50"
    by (simp add: drawAR_def arFountains_def map_filter_replicate ar_fountain_of_def
        element_lat_def element_lon_def initial_app_def)
  obtain t where t: "renderMarkers ?s 5 (Some (replicate 60 ?e)) = Inr t"
    and n: "\<forall>n. snd (drawAR Leaflet ?cv t 0) = NoneInView n \<longrightarrow>
       n = length (take (getMaxMarkersForZoom 5) (replicate 60 ?e)) \<and> n \<le> getMaxMarkersForZoom 5"
    using rendered_fountains_truncated [of ?s 5 "replicate 60 ?e" Leaflet ?cv 0 "[]"] by blast
  have "t = ?s'" using r t by simp
  then have "50 \<le> getMaxMarkersForZoom 5" using n v by blast
  then show ?thesis
    unfolding Let_def using r v by blast
qed

end
